theory Spec2Isabelle
  imports Main
begin

section \<open>JavaScript values\<close>

text \<open>
  The backend (\<^verbatim>\<open>backend/server.js\<close>) and the Redux slice
  (\<^verbatim>\<open>src/redux/authSlice.js\<close>) handle JSON data: request bodies, query strings,
  headers, upstream API payloads and action payloads. A value is one of the JSON shapes or
  \<^verbatim>\<open>undefined\<close>; an object is an association list from property names to values, each
  name bound once.
  Numbers are modelled as integers: the program only tests them for truthiness, prints them
  and uses them as counts.
\<close>

datatype jsval =
    JUndefined
  | JNull
  | JBool bool
  | JNum int
  | JStr string
  | JArr "jsval list"
  | JObj "(string \<times> jsval) list"

text \<open>Numeric results of coercions: \<^verbatim>\<open>NaN\<close>, an integer, or an infinity.\<close>

datatype jsnum = NaN | Fin int | PosInf | NegInf

text \<open>What a \<^verbatim>\<open>throw\<close> or a rejected promise carries.\<close>

datatype js_error = TypeError | AxiosError | MongoError

text \<open>Truthiness, as used by \<^verbatim>\<open>!x\<close>, \<^verbatim>\<open>x || y\<close> and \<^verbatim>\<open>x ? a : b\<close>.\<close>

fun truthy :: "jsval \<Rightarrow> bool" where
  "truthy JUndefined = False"
| "truthy JNull = False"
| "truthy (JBool b) = b"
| "truthy (JNum n) = (n \<noteq> 0)"
| "truthy (JStr s) = (s \<noteq> [])"
| "truthy (JArr xs) = True"
| "truthy (JObj kvs) = True"

text \<open>\<^verbatim>\<open>a || b\<close>\<close>

definition js_or :: "jsval \<Rightarrow> jsval \<Rightarrow> jsval" where
  "js_or a b = (if truthy a then a else b)"

text \<open>
  Reading a property of an object of known shape (\<^verbatim>\<open>req.body\<close>, \<^verbatim>\<open>req.query\<close>,
  \<^verbatim>\<open>req.headers\<close>): an absent key reads as \<^verbatim>\<open>undefined\<close>.
\<close>

definition get_prop :: "(string \<times> jsval) list \<Rightarrow> string \<Rightarrow> jsval" where
  "get_prop kvs k = (case map_of kvs k of None \<Rightarrow> JUndefined | Some v \<Rightarrow> v)"

text \<open>
  A destructuring default (\<^verbatim>\<open>const { category = 'general' } = req.body\<close>) replaces
  \<^verbatim>\<open>undefined\<close> only.
\<close>

definition with_default :: "jsval \<Rightarrow> jsval \<Rightarrow> jsval" where
  "with_default v d = (if v = JUndefined then d else v)"

text \<open>
  Member access \<^verbatim>\<open>v.k\<close> on an arbitrary value: a TypeError on \<^verbatim>\<open>undefined\<close> and
  \<^verbatim>\<open>null\<close>, the property on an object, \<^verbatim>\<open>undefined\<close> on any other JSON value (the
  program reads no key that a string, a number, a boolean or an array inherits).
\<close>

fun member_access :: "jsval \<Rightarrow> string \<Rightarrow> js_error + jsval" where
  "member_access JUndefined k = Inl TypeError"
| "member_access JNull k = Inl TypeError"
| "member_access (JObj kvs) k = Inr (get_prop kvs k)"
| "member_access v k = Inr JUndefined"

text \<open>Strict equality \<^verbatim>\<open>a === b\<close>: by value on primitives, by reference on arrays and
  objects (two values that reach the program from different places are never the same
  reference).\<close>

fun strict_eq :: "jsval \<Rightarrow> jsval \<Rightarrow> bool" where
  "strict_eq (JArr xs) b = False"
| "strict_eq (JObj kvs) b = False"
| "strict_eq a b = (a = b)"

subsection \<open>ToString\<close>

fun string_of_nat :: "nat \<Rightarrow> string" where
  "string_of_nat n =
     (if n < 10 then [char_of (48 + n)]
      else string_of_nat (n div 10) @ [char_of (48 + n mod 10)])"

declare string_of_nat.simps [simp del]

text \<open>
  \<^verbatim>\<open>String(n)\<close> for a non-negative integer: plain decimal digits below \<open>10\<^sup>2\<^sup>1\<close>, and from
  there on the exponent form (\<^verbatim>\<open>1e+21\<close>, \<^verbatim>\<open>1.5e+22\<close>): the digits without their trailing
  zeros, a point after the first, and the decimal exponent. (The integers of the model are
  exact, where JavaScript rounds to a double beyond \<open>2\<^sup>5\<^sup>3\<close>.)
\<close>

definition strip_trailing_zeros :: "string \<Rightarrow> string" where
  "strip_trailing_zeros s = rev (dropWhile (\<lambda>c. c = CHR ''0'') (rev s))"

definition exponent_form :: "string \<Rightarrow> string" where
  "exponent_form ds =
     (case strip_trailing_zeros ds of
        [] \<Rightarrow> ds
      | d # r \<Rightarrow>
          d # (if r = [] then [] else CHR ''.'' # r) @ ''e+'' @ string_of_nat (length ds - 1))"

definition string_of_int :: "int \<Rightarrow> string" where
  "string_of_int i =
     (let ds = string_of_nat (nat \<bar>i\<bar>);
          body = (if \<bar>i\<bar> < 10 ^ 21 then ds else exponent_form ds)
      in if i < 0 then CHR ''-'' # body else body)"

fun join_comma :: "string list \<Rightarrow> string" where
  "join_comma [] = []"
| "join_comma [s] = s"
| "join_comma (s # t # ts) = s @ CHR '','' # join_comma (t # ts)"

text \<open>The results of a list of evaluations, or the first error among them.\<close>

fun all_or_error :: "(js_error + 'a) list \<Rightarrow> js_error + 'a list" where
  "all_or_error [] = Inr []"
| "all_or_error (Inl e # rs) = Inl e"
| "all_or_error (Inr x # rs) = (case all_or_error rs of Inl e \<Rightarrow> Inl e | Inr xs \<Rightarrow> Inr (x # xs))"

text \<open>
  \<^verbatim>\<open>String(v)\<close>, as a template literal and \<^verbatim>\<open>parseInt\<close> apply it. An array prints its
  elements joined by commas, with \<^verbatim>\<open>null\<close> and \<^verbatim>\<open>undefined\<close> elements empty. An object
  is converted through its \<^verbatim>\<open>toString\<close>: a parsed object that has a property of that name
  of its own hides the inherited method behind a value that cannot be called, and the
  conversion throws a TypeError (its \<^verbatim>\<open>valueOf\<close>, own or inherited, never yields a
  primitive); any other object prints as \<^verbatim>\<open>[object Object]\<close>.
\<close>

fun js_to_string :: "jsval \<Rightarrow> js_error + string" where
  "js_to_string JUndefined = Inr ''undefined''"
| "js_to_string JNull = Inr ''null''"
| "js_to_string (JBool b) = Inr (if b then ''true'' else ''false'')"
| "js_to_string (JNum n) = Inr (string_of_int n)"
| "js_to_string (JStr s) = Inr s"
| "js_to_string (JArr xs) =
     (case all_or_error
             (map (\<lambda>x. if x = JUndefined \<or> x = JNull then Inr [] else js_to_string x) xs) of
        Inl e \<Rightarrow> Inl e
      | Inr ss \<Rightarrow> Inr (join_comma ss))"
| "js_to_string (JObj kvs) =
     (case map_of kvs ''toString'' of
        None \<Rightarrow> Inr ''[object Object]''
      | Some f \<Rightarrow> Inl TypeError)"

subsection \<open>Numeric coercions\<close>

definition is_ws :: "char \<Rightarrow> bool" where
  "is_ws c = (c \<in> set [CHR 0x09, CHR 0x0A, CHR 0x0B, CHR 0x0C, CHR 0x0D, CHR '' ''])"

definition digit_of :: "char \<Rightarrow> nat option" where
  "digit_of c =
     (let n = (of_char c :: nat) in
      if 48 \<le> n \<and> n \<le> 57 then Some (n - 48)
      else if 97 \<le> n \<and> n \<le> 102 then Some (n - 87)
      else if 65 \<le> n \<and> n \<le> 70 then Some (n - 55)
      else None)"

definition is_digit :: "nat \<Rightarrow> char \<Rightarrow> bool" where
  "is_digit radix c = (case digit_of c of None \<Rightarrow> False | Some d \<Rightarrow> d < radix)"

definition digits_value :: "nat \<Rightarrow> string \<Rightarrow> nat" where
  "digits_value radix s =
     foldl (\<lambda>a c. a * radix + (case digit_of c of None \<Rightarrow> 0 | Some d \<Rightarrow> d)) 0 s"

definition trim :: "string \<Rightarrow> string" where
  "trim s = rev (dropWhile is_ws (rev (dropWhile is_ws s)))"

text \<open>
  \<^verbatim>\<open>parseInt(s)\<close> with no radix: leading white space, an optional sign, an optional
  \<^verbatim>\<open>0x\<close> prefix, then the longest run of digits; \<^verbatim>\<open>NaN\<close> when there is none.
\<close>

definition parseInt_str :: "string \<Rightarrow> jsnum" where
  "parseInt_str s =
     (let s1 = dropWhile is_ws s;
          neg = (case s1 of c # _ \<Rightarrow> c = CHR ''-'' | [] \<Rightarrow> False);
          s2 = (case s1 of c # r \<Rightarrow> if c = CHR ''+'' \<or> c = CHR ''-'' then r else s1 | [] \<Rightarrow> s1);
          hex = (case s2 of a # b # _ \<Rightarrow> a = CHR ''0'' \<and> (b = CHR ''x'' \<or> b = CHR ''X'')
                 | _ \<Rightarrow> False);
          radix = (if hex then 16 else 10);
          s3 = (if hex then drop 2 s2 else s2);
          ds = takeWhile (is_digit radix) s3
      in if ds = [] then NaN
         else Fin ((if neg then - 1 else 1) * int (digits_value radix ds)))"

text \<open>\<^verbatim>\<open>parseInt(v)\<close> converts its argument to a string first, which may throw.\<close>

definition parseInt :: "jsval \<Rightarrow> js_error + jsnum" where
  "parseInt v = (case js_to_string v of Inl e \<Rightarrow> Inl e | Inr s \<Rightarrow> Inr (parseInt_str s))"

text \<open>
  \<^verbatim>\<open>Number(s)\<close> on a string, truncated towards zero (every consumer in the program
  truncates): the trimmed string is empty (zero), a \<^verbatim>\<open>0x\<close>, \<^verbatim>\<open>0o\<close> or \<^verbatim>\<open>0b\<close>
  literal, a signed \<^verbatim>\<open>Infinity\<close>, or a signed decimal literal with an optional fraction
  and exponent; anything else is \<^verbatim>\<open>NaN\<close>.
\<close>

definition radix_prefix :: "string \<Rightarrow> (nat \<times> string) option" where
  "radix_prefix t =
     (case t of
        a # b # r \<Rightarrow>
          if a \<noteq> CHR ''0'' then None
          else if b = CHR ''x'' \<or> b = CHR ''X'' then Some (16, r)
          else if b = CHR ''o'' \<or> b = CHR ''O'' then Some (8, r)
          else if b = CHR ''b'' \<or> b = CHR ''B'' then Some (2, r)
          else None
      | _ \<Rightarrow> None)"

definition scale10 :: "nat \<Rightarrow> int \<Rightarrow> nat" where
  "scale10 m e = (if 0 \<le> e then m * 10 ^ nat e else m div 10 ^ nat (- e))"

definition exponent_part :: "string \<Rightarrow> int option" where
  "exponent_part r =
     (case r of
        [] \<Rightarrow> Some 0
      | e # r1 \<Rightarrow>
          if e = CHR ''e'' \<or> e = CHR ''E'' then
            (let neg = (case r1 of c # _ \<Rightarrow> c = CHR ''-'' | [] \<Rightarrow> False);
                 ds = (case r1 of c # r2 \<Rightarrow> if c = CHR ''+'' \<or> c = CHR ''-'' then r2 else r1
                       | [] \<Rightarrow> r1)
             in if ds \<noteq> [] \<and> list_all (is_digit 10) ds
                then Some ((if neg then - 1 else 1) * int (digits_value 10 ds))
                else None)
          else None)"

definition decimal_literal :: "string \<Rightarrow> nat option" where
  "decimal_literal b =
     (let ip = takeWhile (is_digit 10) b;
          r1 = dropWhile (is_digit 10) b;
          fp = (case r1 of c # r \<Rightarrow> if c = CHR ''.'' then takeWhile (is_digit 10) r else []
                | [] \<Rightarrow> []);
          r2 = (case r1 of c # r \<Rightarrow> if c = CHR ''.'' then dropWhile (is_digit 10) r else r1
                | [] \<Rightarrow> r1)
      in if ip = [] \<and> fp = [] then None
         else (case exponent_part r2 of
                 None \<Rightarrow> None
               | Some e \<Rightarrow> Some (scale10 (digits_value 10 (ip @ fp)) (e - int (length fp)))))"

definition str_to_number :: "string \<Rightarrow> jsnum" where
  "str_to_number s =
     (let t = trim s in
      if t = [] then Fin 0
      else (case radix_prefix t of
              Some (r, ds) \<Rightarrow>
                if ds \<noteq> [] \<and> list_all (is_digit r) ds then Fin (int (digits_value r ds)) else NaN
            | None \<Rightarrow>
                (let neg = (case t of c # _ \<Rightarrow> c = CHR ''-'' | [] \<Rightarrow> False);
                     b = (case t of c # r \<Rightarrow> if c = CHR ''+'' \<or> c = CHR ''-'' then r else t
                          | [] \<Rightarrow> t)
                 in if b = ''Infinity'' then (if neg then NegInf else PosInf)
                    else (case decimal_literal b of
                            None \<Rightarrow> NaN
                          | Some m \<Rightarrow> Fin ((if neg then - 1 else 1) * int m)))))"

text \<open>\<^verbatim>\<open>Number(v)\<close>, truncated; an array or an object is converted through its string,
  which may throw.\<close>

fun to_number :: "jsval \<Rightarrow> js_error + jsnum" where
  "to_number JUndefined = Inr NaN"
| "to_number JNull = Inr (Fin 0)"
| "to_number (JBool b) = Inr (Fin (if b then 1 else 0))"
| "to_number (JNum n) = Inr (Fin n)"
| "to_number (JStr s) = Inr (str_to_number s)"
| "to_number v = (case js_to_string v of Inl e \<Rightarrow> Inl e | Inr s \<Rightarrow> Inr (str_to_number s))"

text \<open>
  \<^verbatim>\<open>xs.slice(0, end)\<close>: \<^verbatim>\<open>end\<close> is coerced to an integer (\<^verbatim>\<open>NaN\<close> counts as 0), a
  negative \<^verbatim>\<open>end\<close> counts from the end of the array, and the result is clamped to the
  array; \<^verbatim>\<open>undefined\<close> means the whole array. The coercion may throw.
\<close>

definition slice0 :: "'a list \<Rightarrow> jsval \<Rightarrow> js_error + 'a list" where
  "slice0 xs end_v =
     (if end_v = JUndefined then Inr xs
      else (case to_number end_v of
              Inl e \<Rightarrow> Inl e
            | Inr NaN \<Rightarrow> Inr []
            | Inr (Fin k) \<Rightarrow>
                Inr (if k < 0 then take (nat (int (length xs) + k)) xs else take (nat k) xs)
            | Inr PosInf \<Rightarrow> Inr xs
            | Inr NegInf \<Rightarrow> Inr []))"

section \<open>Stored records\<close>

text \<open>
  The four collections hold objects of fixed shape, each built by one object literal of
  \<^verbatim>\<open>server.js\<close>. A timestamp (\<^verbatim>\<open>new Date()\<close>) is a clock reading, a natural number.
  The \<^verbatim>\<open>_id\<close> the driver adds is storage metadata and is not modelled.
\<close>

record talk =
  talk_id :: jsval
  talk_title :: jsval
  talk_speaker :: jsval
  talk_description :: jsval
  talk_duration :: jsval
  talk_url :: jsval
  talk_thumbnail :: jsval
  talk_type :: jsval
  talk_createdAt :: nat

record ngo =
  ngo_id :: jsval
  ngo_name :: jsval
  ngo_type :: jsval
  ngo_description :: jsval
  ngo_website :: jsval
  ngo_location :: jsval
  ngo_mission :: jsval
  ngo_createdAt :: nat

record checkin =
  ci_location :: jsval
  ci_interest :: jsval
  ci_category :: jsval
  ci_userId :: jsval
  ci_createdAt :: nat

record message =
  msg_text :: jsval
  msg_user :: jsval
  msg_photoURL :: jsval
  msg_createdAt :: nat

section \<open>The outside world\<close>

text \<open>
  Every call that leaves the process is recorded, in order: the upstream HTTP request of a
  fetcher, each storage call (with the collection's name) and each realtime publish.
\<close>

datatype event =
    AxiosGet string
  | Find string "(string \<times> jsval) list" jsnum
  | DeleteMany string
  | InsertMany string nat
  | InsertOne string
  | PusherTrigger string string message

text \<open>
  What the process cannot decide: its configuration (\<^verbatim>\<open>process.env\<close>), the outcome of the
  two upstream requests (an error, or \<^verbatim>\<open>response.data\<close>), the clock (the reading of the
  \<open>k\<close>-th \<^verbatim>\<open>new Date()\<close>), and the storage driver: which calls it rejects (a driver
  may, for one, reject an \<^verbatim>\<open>insertMany\<close> of an empty batch), how many documents of a
  rejected bulk insert were written before the fault, how the database
  evaluates a non-empty filter document on a record (\<^verbatim>\<open>$text\<close> search, equality on
  \<^verbatim>\<open>type\<close>), and whether an insert result carries the legacy \<^verbatim>\<open>ops\<close> array.
\<close>

record env =
  NODE_ENV :: jsval
  ADMIN_API_KEY :: jsval
  ted_api :: "js_error + jsval"
  propublica_api :: "js_error + jsval"
  clock :: "nat \<Rightarrow> nat"
  storage_fault :: "event \<Rightarrow> js_error option"
  inserted_before_fault :: nat
  talk_matches :: "(string \<times> jsval) list \<Rightarrow> talk \<Rightarrow> bool"
  ngo_matches :: "(string \<times> jsval) list \<Rightarrow> ngo \<Rightarrow> bool"
  result_has_ops :: bool

text \<open>The state a handler runs in: the four collections, the number of clock readings
  taken so far, and the calls made so far.\<close>

record world =
  mapData :: "checkin list"
  tedTalks :: "talk list"
  ngos :: "ngo list"
  messages :: "message list"
  clock_reads :: nat
  trace :: "event list"

definition record_call :: "event \<Rightarrow> world \<Rightarrow> world" where
  "record_call ev w = w\<lparr>trace := trace w @ [ev]\<rparr>"

text \<open>\<^verbatim>\<open>new Date()\<close>\<close>

definition new_Date :: "env \<Rightarrow> world \<Rightarrow> nat \<times> world" where
  "new_Date env w = (clock env (clock_reads w), w\<lparr>clock_reads := Suc (clock_reads w)\<rparr>)"

section \<open>Storage calls\<close>

definition storage_call :: "env \<Rightarrow> event \<Rightarrow> world \<Rightarrow> js_error option \<times> world" where
  "storage_call env ev w = (storage_fault env ev, record_call ev w)"

text \<open>
  \<^verbatim>\<open>cursor.limit(n)\<close>: zero means no limit, a negative number limits to its absolute
  value; a limit that is not a finite number is rejected.
\<close>

definition cursor_limit :: "jsnum \<Rightarrow> 'a list \<Rightarrow> js_error + 'a list" where
  "cursor_limit lim xs =
     (case lim of
        Fin k \<Rightarrow> Inr (if k = 0 then xs else take (nat \<bar>k\<bar>) xs)
      | _ \<Rightarrow> Inl MongoError)"

text \<open>\<^verbatim>\<open>.sort({ createdAt: -1 })\<close>: newest first, ties in insertion order.\<close>

definition sort_desc :: "('a \<Rightarrow> nat) \<Rightarrow> 'a list \<Rightarrow> 'a list" where
  "sort_desc created xs = sort_key (\<lambda>d. - int (created d)) xs"

text \<open>
  \<^verbatim>\<open>collection.find(q).limit(n).sort({ createdAt: -1 }).toArray()\<close>: the database
  filters, sorts, then limits, whatever the order of the cursor's modifiers.
\<close>

definition run_find ::
  "env \<Rightarrow> event \<Rightarrow> ('a \<Rightarrow> bool) \<Rightarrow> ('a \<Rightarrow> nat) \<Rightarrow> jsnum \<Rightarrow> 'a list \<Rightarrow> world
   \<Rightarrow> (js_error + 'a list) \<times> world" where
  "run_find env ev matches created lim docs w =
     (case storage_call env ev w of
        (Some e, w1) \<Rightarrow> (Inl e, w1)
      | (None, w1) \<Rightarrow>
          (case cursor_limit lim (sort_desc created (filter matches docs)) of
             Inl e \<Rightarrow> (Inl e, w1)
           | Inr r \<Rightarrow> (Inr r, w1)))"

text \<open>The empty filter document \<^verbatim>\<open>{}\<close> selects every record.\<close>

definition find_tedTalks ::
  "env \<Rightarrow> (string \<times> jsval) list \<Rightarrow> jsnum \<Rightarrow> world \<Rightarrow> (js_error + talk list) \<times> world" where
  "find_tedTalks env q lim w =
     run_find env (Find ''tedTalks'' q lim) (\<lambda>d. q = [] \<or> talk_matches env q d)
       talk_createdAt lim (tedTalks w) w"

definition find_ngos ::
  "env \<Rightarrow> (string \<times> jsval) list \<Rightarrow> jsnum \<Rightarrow> world \<Rightarrow> (js_error + ngo list) \<times> world" where
  "find_ngos env q lim w =
     run_find env (Find ''ngos'' q lim) (\<lambda>d. q = [] \<or> ngo_matches env q d)
       ngo_createdAt lim (ngos w) w"

text \<open>\<^verbatim>\<open>db.collection('tedTalks').deleteMany({})\<close>\<close>

definition deleteMany_tedTalks :: "env \<Rightarrow> world \<Rightarrow> (js_error + unit) \<times> world" where
  "deleteMany_tedTalks env w =
     (case storage_call env (DeleteMany ''tedTalks'') w of
        (Some e, w1) \<Rightarrow> (Inl e, w1)
      | (None, w1) \<Rightarrow> (Inr (), w1\<lparr>tedTalks := []\<rparr>))"

definition deleteMany_ngos :: "env \<Rightarrow> world \<Rightarrow> (js_error + unit) \<times> world" where
  "deleteMany_ngos env w =
     (case storage_call env (DeleteMany ''ngos'') w of
        (Some e, w1) \<Rightarrow> (Inl e, w1)
      | (None, w1) \<Rightarrow> (Inr (), w1\<lparr>ngos := []\<rparr>))"

text \<open>\<^verbatim>\<open>db.collection('tedTalks').insertMany(talks)\<close>: an ordered bulk insert; a rejected
  one may have written a prefix of the batch.\<close>

definition insertMany_tedTalks :: "env \<Rightarrow> talk list \<Rightarrow> world \<Rightarrow> (js_error + unit) \<times> world" where
  "insertMany_tedTalks env docs w =
     (case storage_call env (InsertMany ''tedTalks'' (length docs)) w of
        (Some e, w1) \<Rightarrow>
          (Inl e, w1\<lparr>tedTalks := tedTalks w1 @ take (inserted_before_fault env) docs\<rparr>)
      | (None, w1) \<Rightarrow> (Inr (), w1\<lparr>tedTalks := tedTalks w1 @ docs\<rparr>))"

definition insertMany_ngos :: "env \<Rightarrow> ngo list \<Rightarrow> world \<Rightarrow> (js_error + unit) \<times> world" where
  "insertMany_ngos env docs w =
     (case storage_call env (InsertMany ''ngos'' (length docs)) w of
        (Some e, w1) \<Rightarrow>
          (Inl e, w1\<lparr>ngos := ngos w1 @ take (inserted_before_fault env) docs\<rparr>)
      | (None, w1) \<Rightarrow> (Inr (), w1\<lparr>ngos := ngos w1 @ docs\<rparr>))"

text \<open>\<^verbatim>\<open>insertOne(doc)\<close>, returning \<^verbatim>\<open>result.ops[0]\<close> when the driver's result has an
  \<^verbatim>\<open>ops\<close> array and nothing otherwise.\<close>

definition insertOne_mapData ::
  "env \<Rightarrow> checkin \<Rightarrow> world \<Rightarrow> (js_error + checkin option) \<times> world" where
  "insertOne_mapData env doc w =
     (case storage_call env (InsertOne ''mapData'') w of
        (Some e, w1) \<Rightarrow> (Inl e, w1)
      | (None, w1) \<Rightarrow>
          (Inr (if result_has_ops env then Some doc else None), w1\<lparr>mapData := mapData w1 @ [doc]\<rparr>))"

definition insertOne_messages ::
  "env \<Rightarrow> message \<Rightarrow> world \<Rightarrow> (js_error + message option) \<times> world" where
  "insertOne_messages env doc w =
     (case storage_call env (InsertOne ''messages'') w of
        (Some e, w1) \<Rightarrow> (Inl e, w1)
      | (None, w1) \<Rightarrow>
          (Inr (if result_has_ops env then Some doc else None),
           w1\<lparr>messages := messages w1 @ [doc]\<rparr>))"

section \<open>The fetchers\<close>

definition TED_URL :: string where
  "TED_URL = ''https://ted-talks-api.p.rapidapi.com/talks''"

definition PROPUBLICA_URL :: string where
  "PROPUBLICA_URL = ''https://projects.propublica.org/nonprofits/api/v2/search.json?q=environment''"

text \<open>
  A further member access on a value whose first access did not throw: it cannot throw
  either, so it is read as a plain value.
\<close>

definition field :: "jsval \<Rightarrow> string \<Rightarrow> jsval" where
  "field v k = (case member_access v k of Inl e \<Rightarrow> JUndefined | Inr x \<Rightarrow> x)"

text \<open>\<^verbatim>\<open>xs.map(f)\<close> is a TypeError unless \<^verbatim>\<open>xs\<close> is an array.\<close>

definition as_array :: "jsval \<Rightarrow> js_error + jsval list" where
  "as_array v = (case v of JArr xs \<Rightarrow> Inr xs | _ \<Rightarrow> Inl TypeError)"

text \<open>The callback of \<^verbatim>\<open>Array.prototype.map\<close> runs on each element in order and may read
  the clock; a throw in the callback ends the loop.\<close>

fun map_records ::
  "(jsval \<Rightarrow> world \<Rightarrow> (js_error + 'a) \<times> world) \<Rightarrow> jsval list \<Rightarrow> world
   \<Rightarrow> (js_error + 'a list) \<times> world" where
  "map_records f [] w = (Inr [], w)"
| "map_records f (x # xs) w =
     (case f x w of
        (Inl e, w1) \<Rightarrow> (Inl e, w1)
      | (Inr r, w1) \<Rightarrow>
          (case map_records f xs w1 of
             (Inl e, w2) \<Rightarrow> (Inl e, w2)
           | (Inr rs, w2) \<Rightarrow> (Inr (r # rs), w2)))"

text \<open>The object literal of \<^verbatim>\<open>fetchTEDTalks\<close>.\<close>

definition talk_of :: "env \<Rightarrow> jsval \<Rightarrow> world \<Rightarrow> (js_error + talk) \<times> world" where
  "talk_of env t w =
     (case member_access t ''id'' of
        Inl e \<Rightarrow> (Inl e, w)
      | Inr i \<Rightarrow>
          (let (d, w1) = new_Date env w in
           (Inr \<lparr>talk_id = i, talk_title = field t ''title'', talk_speaker = field t ''speaker'',
                 talk_description = field t ''description'',
                 talk_duration = field t ''duration'', talk_url = field t ''url'',
                 talk_thumbnail = field t ''thumbnail'', talk_type = JStr ''Video'',
                 talk_createdAt = d\<rparr>, w1)))"

text \<open>The template literal of \<^verbatim>\<open>location\<close>, \<^verbatim>\<open>${org.city}, ${org.state}\<close>: both values
  are converted to strings, the city first, and either conversion may throw.\<close>

definition city_state :: "jsval \<Rightarrow> js_error + string" where
  "city_state org =
     (case js_to_string (field org ''city'') of
        Inl e \<Rightarrow> Inl e
      | Inr c \<Rightarrow>
          (case js_to_string (field org ''state'') of
             Inl e \<Rightarrow> Inl e
           | Inr s \<Rightarrow> Inr (c @ '', '' @ s)))"

text \<open>The object literal of \<^verbatim>\<open>refreshNGOData\<close>. Its properties are evaluated in order:
  \<^verbatim>\<open>org.ein\<close> throws on a \<^verbatim>\<open>null\<close> element, the template literal of \<^verbatim>\<open>location\<close> may
  throw, and only then is the clock read.\<close>

definition ngo_of :: "env \<Rightarrow> jsval \<Rightarrow> world \<Rightarrow> (js_error + ngo) \<times> world" where
  "ngo_of env org w =
     (case member_access org ''ein'' of
        Inl e \<Rightarrow> (Inl e, w)
      | Inr i \<Rightarrow>
          (case city_state org of
             Inl e \<Rightarrow> (Inl e, w)
           | Inr loc \<Rightarrow>
               (let (d, w1) = new_Date env w in
                (Inr \<lparr>ngo_id = i, ngo_name = field org ''name'', ngo_type = JStr ''NGO'',
                      ngo_description =
                        js_or (field org ''ntee_code'') (JStr ''No description available''),
                      ngo_website = js_or (field org ''website'') (JStr ''Not available''),
                      ngo_location = JStr loc,
                      ngo_mission =
                        js_or (field org ''ntee_classification'') (JStr ''No mission statement''),
                      ngo_createdAt = d\<rparr>, w1))))"

text \<open>\<^verbatim>\<open>response.data.result.results\<close> and \<^verbatim>\<open>response.data.organizations\<close>, as the
  receiver of \<^verbatim>\<open>.map\<close>.\<close>

definition ted_results :: "jsval \<Rightarrow> js_error + jsval list" where
  "ted_results data =
     (case member_access data ''result'' of
        Inl e \<Rightarrow> Inl e
      | Inr r \<Rightarrow> (case member_access r ''results'' of Inl e \<Rightarrow> Inl e | Inr rs \<Rightarrow> as_array rs))"

definition ngo_results :: "jsval \<Rightarrow> js_error + jsval list" where
  "ngo_results data =
     (case member_access data ''organizations'' of Inl e \<Rightarrow> Inl e | Inr rs \<Rightarrow> as_array rs)"

text \<open>
  \<^verbatim>\<open>fetchTEDTalks\<close>: one upstream request, the records built from the payload, then
  \<^verbatim>\<open>deleteMany({})\<close> and \<^verbatim>\<open>insertMany(talks)\<close>. The \<^verbatim>\<open>catch\<close> logs and rethrows.
\<close>

definition fetchTEDTalks :: "env \<Rightarrow> world \<Rightarrow> (js_error + talk list) \<times> world" where
  "fetchTEDTalks env w =
     (let w1 = record_call (AxiosGet TED_URL) w in
      case ted_api env of
        Inl e \<Rightarrow> (Inl e, w1)
      | Inr data \<Rightarrow>
          (case ted_results data of
             Inl e \<Rightarrow> (Inl e, w1)
           | Inr rs \<Rightarrow>
               (case map_records (talk_of env) rs w1 of
                  (Inl e, w2) \<Rightarrow> (Inl e, w2)
                | (Inr talks, w2) \<Rightarrow>
                    (case deleteMany_tedTalks env w2 of
                       (Inl e, w3) \<Rightarrow> (Inl e, w3)
                     | (Inr u, w3) \<Rightarrow>
                         (case insertMany_tedTalks env talks w3 of
                            (Inl e, w4) \<Rightarrow> (Inl e, w4)
                          | (Inr u', w4) \<Rightarrow> (Inr talks, w4))))))"

definition refreshNGOData :: "env \<Rightarrow> world \<Rightarrow> (js_error + ngo list) \<times> world" where
  "refreshNGOData env w =
     (let w1 = record_call (AxiosGet PROPUBLICA_URL) w in
      case propublica_api env of
        Inl e \<Rightarrow> (Inl e, w1)
      | Inr data \<Rightarrow>
          (case ngo_results data of
             Inl e \<Rightarrow> (Inl e, w1)
           | Inr rs \<Rightarrow>
               (case map_records (ngo_of env) rs w1 of
                  (Inl e, w2) \<Rightarrow> (Inl e, w2)
                | (Inr ngos', w2) \<Rightarrow>
                    (case deleteMany_ngos env w2 of
                       (Inl e, w3) \<Rightarrow> (Inl e, w3)
                     | (Inr u, w3) \<Rightarrow>
                         (case insertMany_ngos env ngos' w3 of
                            (Inl e, w4) \<Rightarrow> (Inl e, w4)
                          | (Inr u', w4) \<Rightarrow> (Inr ngos', w4))))))"

section \<open>The HTTP handlers\<close>

text \<open>
  \<^verbatim>\<open>backend/server.js\<close> holds two revisions of the server, one after the other. The
  model follows the first. In the routes modelled here the second has the same control
  flow; it differs in what it puts into response bodies (\<^verbatim>\<open>err.message\<close> in the 500 of
  \<^verbatim>\<open>/api/content\<close>, the received body in the 400 of \<^verbatim>\<open>/api/send-message\<close>) and in
  building the saved message from \<^verbatim>\<open>result.insertedId\<close> instead of \<^verbatim>\<open>result.ops[0]\<close>.

  A request as a handler sees it: \<^verbatim>\<open>req.query\<close>, \<^verbatim>\<open>req.body\<close> (the JSON body parser
  leaves an object there, empty when the request has no body) and \<^verbatim>\<open>req.headers\<close>.
  A response is the status and the value given to \<^verbatim>\<open>res.json\<close>.
\<close>

record request =
  req_query :: "(string \<times> jsval) list"
  req_body :: "(string \<times> jsval) list"
  req_headers :: "(string \<times> jsval) list"

datatype payload =
    Talks "talk list"
  | Ngos "ngo list"
  | CheckIn checkin
  | Message message
  | ErrorBody string
  | Refreshed nat

record response =
  status :: nat
  json :: payload

definition respond :: "nat \<Rightarrow> payload \<Rightarrow> response" where
  "respond code p = \<lparr>status = code, json = p\<rparr>"

text \<open>\<^verbatim>\<open>app.post('/api/map', ...)\<close>\<close>

definition post_map :: "env \<Rightarrow> request \<Rightarrow> world \<Rightarrow> response \<times> world" where
  "post_map env req w =
     (let location = get_prop (req_body req) ''location'';
          interest = get_prop (req_body req) ''interest'';
          category = with_default (get_prop (req_body req) ''category'') (JStr ''general'');
          userId = get_prop (req_body req) ''userId''
      in if \<not> truthy location \<or> \<not> truthy interest
         then (respond 400 (ErrorBody ''Missing required fields''), w)
         else
           (let (d, w1) = new_Date env w;
                doc = \<lparr>ci_location = location, ci_interest = interest, ci_category = category,
                       ci_userId = userId, ci_createdAt = d\<rparr>
            in case insertOne_mapData env doc w1 of
                 (Inl e, w2) \<Rightarrow> (respond 500 (ErrorBody ''Failed to save location''), w2)
               | (Inr None, w2) \<Rightarrow> (respond 500 (ErrorBody ''Failed to save location''), w2)
               | (Inr (Some saved), w2) \<Rightarrow> (respond 201 (CheckIn saved), w2)))"

text \<open>\<^verbatim>\<open>app.get('/api/content', ...)\<close>: the destructured \<^verbatim>\<open>limit\<close> (default 20), the filter
  document built from \<^verbatim>\<open>search\<close>, and the handler. \<^verbatim>\<open>parseInt(limit)\<close> is evaluated
  before the query is sent; a throw there, or in \<^verbatim>\<open>slice\<close>, reaches the \<^verbatim>\<open>catch\<close>.\<close>

definition content_limit :: "request \<Rightarrow> jsval" where
  "content_limit req = with_default (get_prop (req_query req) ''limit'') (JNum 20)"

definition content_query :: "request \<Rightarrow> (string \<times> jsval) list" where
  "content_query req =
     (let search = get_prop (req_query req) ''search''
      in if truthy search then [(''$text'', JObj [(''$search'', search)])] else [])"

definition get_content :: "env \<Rightarrow> request \<Rightarrow> world \<Rightarrow> response \<times> world" where
  "get_content env req w =
     (let limit = content_limit req;
          q = content_query req
      in case parseInt limit of
           Inl e \<Rightarrow> (respond 500 (ErrorBody ''Failed to fetch content''), w)
         | Inr lim \<Rightarrow>
             (case find_tedTalks env q lim w of
                (Inl e, w1) \<Rightarrow> (respond 500 (ErrorBody ''Failed to fetch content''), w1)
              | (Inr talks, w1) \<Rightarrow>
                  if length talks = 0 then
                    (case fetchTEDTalks env w1 of
                       (Inl e, w2) \<Rightarrow> (respond 500 (ErrorBody ''Failed to fetch content''), w2)
                     | (Inr freshTalks, w2) \<Rightarrow>
                         (case slice0 freshTalks limit of
                            Inl e \<Rightarrow> (respond 500 (ErrorBody ''Failed to fetch content''), w2)
                          | Inr page \<Rightarrow> (respond 200 (Talks page), w2)))
                  else (respond 200 (Talks talks), w1)))"

text \<open>\<^verbatim>\<open>app.get('/api/action-hub', ...)\<close>: \<^verbatim>\<open>limit\<close> defaults to 50; the filter document
  starts empty and gains \<^verbatim>\<open>$text\<close> and \<^verbatim>\<open>type\<close> when the parameters are truthy.\<close>

definition action_hub_limit :: "request \<Rightarrow> jsval" where
  "action_hub_limit req = with_default (get_prop (req_query req) ''limit'') (JNum 50)"

definition action_hub_query :: "request \<Rightarrow> (string \<times> jsval) list" where
  "action_hub_query req =
     (let search = get_prop (req_query req) ''search'';
          type = get_prop (req_query req) ''type''
      in (if truthy search then [(''$text'', JObj [(''$search'', search)])] else []) @
         (if truthy type then [(''type'', type)] else []))"

definition get_action_hub :: "env \<Rightarrow> request \<Rightarrow> world \<Rightarrow> response \<times> world" where
  "get_action_hub env req w =
     (let limit = action_hub_limit req;
          q = action_hub_query req
      in case parseInt limit of
           Inl e \<Rightarrow> (respond 500 (ErrorBody ''Failed to fetch NGOs''), w)
         | Inr lim \<Rightarrow>
             (case find_ngos env q lim w of
                (Inl e, w1) \<Rightarrow> (respond 500 (ErrorBody ''Failed to fetch NGOs''), w1)
              | (Inr found, w1) \<Rightarrow>
                  if length found = 0 then
                    (case refreshNGOData env w1 of
                       (Inl e, w2) \<Rightarrow> (respond 500 (ErrorBody ''Failed to fetch NGOs''), w2)
                     | (Inr freshNGOs, w2) \<Rightarrow>
                         (case slice0 freshNGOs limit of
                            Inl e \<Rightarrow> (respond 500 (ErrorBody ''Failed to fetch NGOs''), w2)
                          | Inr page \<Rightarrow> (respond 200 (Ngos page), w2)))
                  else (respond 200 (Ngos found), w1)))"

text \<open>\<^verbatim>\<open>app.post('/api/send-message', ...)\<close>. The publish is not awaited: it is recorded
  and its outcome does not reach the handler.\<close>

definition post_send_message :: "env \<Rightarrow> request \<Rightarrow> world \<Rightarrow> response \<times> world" where
  "post_send_message env req w =
     (let text_v = get_prop (req_body req) ''text'';
          user_v = get_prop (req_body req) ''user'';
          photoURL = get_prop (req_body req) ''photoURL''
      in if \<not> truthy text_v \<or> \<not> truthy user_v
         then (respond 400 (ErrorBody ''Missing required fields''), w)
         else
           (let (d, w1) = new_Date env w;
                msg = \<lparr>msg_text = text_v, msg_user = user_v,
                       msg_photoURL = js_or photoURL (JStr ''''), msg_createdAt = d\<rparr>
            in case insertOne_messages env msg w1 of
                 (Inl e, w2) \<Rightarrow> (respond 500 (ErrorBody ''Failed to send message''), w2)
               | (Inr None, w2) \<Rightarrow> (respond 500 (ErrorBody ''Failed to send message''), w2)
               | (Inr (Some savedMessage), w2) \<Rightarrow>
                   (respond 201 (Message savedMessage),
                    record_call (PusherTrigger ''chat'' ''message'' savedMessage) w2)))"

text \<open>The gate of the two refresh routes:
  \<^verbatim>\<open>process.env.NODE_ENV === 'production' && req.headers['x-api-key'] !== process.env.ADMIN_API_KEY\<close>\<close>

definition refresh_forbidden :: "env \<Rightarrow> request \<Rightarrow> bool" where
  "refresh_forbidden env req =
     (strict_eq (NODE_ENV env) (JStr ''production'') \<and>
      \<not> strict_eq (get_prop (req_headers req) ''x-api-key'') (ADMIN_API_KEY env))"

text \<open>\<^verbatim>\<open>app.post('/api/refresh/ted-talks', ...)\<close>\<close>

definition post_refresh_ted_talks :: "env \<Rightarrow> request \<Rightarrow> world \<Rightarrow> response \<times> world" where
  "post_refresh_ted_talks env req w =
     (if refresh_forbidden env req then (respond 403 (ErrorBody ''Unauthorized''), w)
      else (case fetchTEDTalks env w of
              (Inl e, w1) \<Rightarrow> (respond 500 (ErrorBody ''Failed to refresh TED Talks''), w1)
            | (Inr talks, w1) \<Rightarrow> (respond 200 (Refreshed (length talks)), w1)))"

text \<open>\<^verbatim>\<open>app.post('/api/refresh/ngos', ...)\<close>\<close>

definition post_refresh_ngos :: "env \<Rightarrow> request \<Rightarrow> world \<Rightarrow> response \<times> world" where
  "post_refresh_ngos env req w =
     (if refresh_forbidden env req then (respond 403 (ErrorBody ''Unauthorized''), w)
      else (case refreshNGOData env w of
              (Inl e, w1) \<Rightarrow> (respond 500 (ErrorBody ''Failed to refresh NGOs''), w1)
            | (Inr found, w1) \<Rightarrow> (respond 200 (Refreshed (length found)), w1)))"

section \<open>The authentication slice\<close>

text \<open>
  \<^verbatim>\<open>src/redux/authSlice.js\<close>: the state and its reducers. A reducer that throws leaves
  the state as it was and hands the error to the dispatcher.
\<close>

record auth_state =
  user :: jsval
  loading :: bool
  error :: jsval

definition initialState :: auth_state where
  "initialState = \<lparr>user = JNull, loading = False, error = JNull\<rparr>"

definition loginStart :: "auth_state \<Rightarrow> auth_state" where
  "loginStart state = state\<lparr>loading := True, error := JNull\<rparr>"

definition loginSuccess :: "auth_state \<Rightarrow> jsval \<Rightarrow> js_error + auth_state" where
  "loginSuccess state payload =
     (case member_access payload ''uid'' of
        Inl e \<Rightarrow> Inl e
      | Inr uid \<Rightarrow>
          Inr (state\<lparr>user := JObj
                 [(''uid'', uid),
                  (''email'', field payload ''email''),
                  (''displayName'', js_or (field payload ''displayName'') (JStr '''')),
                  (''photoURL'', js_or (field payload ''photoURL'') (JStr '''')),
                  (''emailVerified'', js_or (field payload ''emailVerified'') (JBool False))],
               loading := False, error := JNull\<rparr>))"

definition loginFailure :: "auth_state \<Rightarrow> jsval \<Rightarrow> auth_state" where
  "loginFailure state payload = state\<lparr>error := payload, loading := False\<rparr>"

definition logout :: "auth_state \<Rightarrow> auth_state" where
  "logout state = state\<lparr>user := JNull, loading := False, error := JNull\<rparr>"

definition setUser :: "auth_state \<Rightarrow> jsval \<Rightarrow> auth_state" where
  "setUser state payload = state\<lparr>user := payload\<rparr>"

section \<open>Observations used by the properties\<close>

text \<open>How many upstream requests a run has made to each source.\<close>

definition ted_fetches :: "world \<Rightarrow> nat" where
  "ted_fetches w = count_list (trace w) (AxiosGet TED_URL)"

definition ngo_fetches :: "world \<Rightarrow> nat" where
  "ngo_fetches w = count_list (trace w) (AxiosGet PROPUBLICA_URL)"

text \<open>A payload element on which the first member access of the \<^verbatim>\<open>map\<close> callback throws.\<close>

definition nullish :: "jsval \<Rightarrow> bool" where
  "nullish v = (v = JUndefined \<or> v = JNull)"

text \<open>An element of the NGO payload that the object literal accepts: it is not \<^verbatim>\<open>null\<close>
  and its city and state can be converted to strings.\<close>

definition ngo_item_ok :: "jsval \<Rightarrow> bool" where
  "ngo_item_ok org =
     (\<not> nullish org \<and> (case city_state org of Inl e \<Rightarrow> False | Inr s \<Rightarrow> True))"

text \<open>
  The payloads the fetchers can normalise: the path to the array exists, the receiver of
  \<^verbatim>\<open>.map\<close> is an array, and the callback throws on no element of it. On any other
  payload the fetcher throws before it touches storage.
\<close>

definition ted_payload_ok :: "jsval \<Rightarrow> bool" where
  "ted_payload_ok data =
     (case ted_results data of Inl e \<Rightarrow> False | Inr rs \<Rightarrow> list_all (\<lambda>x. \<not> nullish x) rs)"

definition ngo_payload_ok :: "jsval \<Rightarrow> bool" where
  "ngo_payload_ok data =
     (case ngo_results data of Inl e \<Rightarrow> False | Inr rs \<Rightarrow> list_all ngo_item_ok rs)"

text \<open>The upstream fetch fails: the request is rejected, or its payload cannot be
  normalised.\<close>

definition ted_fetch_fails :: "env \<Rightarrow> bool" where
  "ted_fetch_fails env = (case ted_api env of Inl e \<Rightarrow> True | Inr data \<Rightarrow> \<not> ted_payload_ok data)"

definition ngo_fetch_fails :: "env \<Rightarrow> bool" where
  "ngo_fetch_fails env =
     (case propublica_api env of Inl e \<Rightarrow> True | Inr data \<Rightarrow> \<not> ngo_payload_ok data)"

text \<open>A record with its timestamp blanked, to compare contents up to \<^verbatim>\<open>createdAt\<close>.\<close>

definition without_createdAt :: "talk \<Rightarrow> talk" where
  "without_createdAt d = d\<lparr>talk_createdAt := 0\<rparr>"

text \<open>
  The record each object literal builds from a payload element it accepts, given the clock
  reading, and the list built from a whole payload when the first reading is the \<open>k\<close>-th
  of the run.
\<close>

definition talk_record :: "jsval \<Rightarrow> nat \<Rightarrow> talk" where
  "talk_record t d =
     \<lparr>talk_id = field t ''id'', talk_title = field t ''title'', talk_speaker = field t ''speaker'',
      talk_description = field t ''description'', talk_duration = field t ''duration'',
      talk_url = field t ''url'', talk_thumbnail = field t ''thumbnail'',
      talk_type = JStr ''Video'', talk_createdAt = d\<rparr>"

definition ngo_record :: "jsval \<Rightarrow> nat \<Rightarrow> ngo" where
  "ngo_record org d =
     \<lparr>ngo_id = field org ''ein'', ngo_name = field org ''name'', ngo_type = JStr ''NGO'',
      ngo_description = js_or (field org ''ntee_code'') (JStr ''No description available''),
      ngo_website = js_or (field org ''website'') (JStr ''Not available''),
      ngo_location = JStr (case city_state org of Inl e \<Rightarrow> [] | Inr s \<Rightarrow> s),
      ngo_mission = js_or (field org ''ntee_classification'') (JStr ''No mission statement''),
      ngo_createdAt = d\<rparr>"

fun stamped :: "(jsval \<Rightarrow> nat \<Rightarrow> 'a) \<Rightarrow> (nat \<Rightarrow> nat) \<Rightarrow> nat \<Rightarrow> jsval list \<Rightarrow> 'a list" where
  "stamped mk clk k [] = []"
| "stamped mk clk k (x # xs) = mk x (clk k) # stamped mk clk (Suc k) xs"

text \<open>
  The number of records a \<^verbatim>\<open>limit\<close> asks for, when it is the handler's numeric default
  or a plain decimal numeral of the query string.
\<close>

definition requested_count :: "jsval \<Rightarrow> nat option" where
  "requested_count l =
     (case l of
        JNum k \<Rightarrow> if 0 \<le> k \<and> k < 10 ^ 21 then Some (nat k) else None
      | JStr s \<Rightarrow> if s \<noteq> [] \<and> list_all (is_digit 10) s then Some (digits_value 10 s) else None
      | _ \<Rightarrow> None)"

section \<open>Sample data\<close>

text \<open>A small text index for the samples: a search term selects the records whose indexed
  string contains it as one of its space-separated words.\<close>

fun split_words :: "string \<Rightarrow> string list" where
  "split_words [] = [[]]"
| "split_words (c # cs) =
     (if c = CHR '' '' then [] # split_words cs
      else (case split_words cs of [] \<Rightarrow> [[c]] | x # xs \<Rightarrow> (c # x) # xs))"

definition sample_text_search :: "(string \<times> jsval) list \<Rightarrow> jsval \<Rightarrow> bool" where
  "sample_text_search q indexed =
     (case map_of q ''$text'' of
        Some (JObj [(k, JStr s)]) \<Rightarrow>
          (case indexed of JStr t \<Rightarrow> s \<in> set (split_words t) | _ \<Rightarrow> False)
      | _ \<Rightarrow> False)"

definition sample_talk_matches :: "(string \<times> jsval) list \<Rightarrow> talk \<Rightarrow> bool" where
  "sample_talk_matches q d = sample_text_search q (talk_title d)"

definition sample_ngo_matches :: "(string \<times> jsval) list \<Rightarrow> ngo \<Rightarrow> bool" where
  "sample_ngo_matches q d =
     ((case map_of q ''$text'' of None \<Rightarrow> True | Some s \<Rightarrow> sample_text_search q (ngo_name d)) \<and>
      (case map_of q ''type'' of None \<Rightarrow> True | Some v \<Rightarrow> ngo_type d = v))"

definition sample_talk_items :: "jsval list" where
  "sample_talk_items =
     [JObj [(''id'', JNum 101), (''title'', JStr ''Oceans of plastic''),
            (''speaker'', JStr ''Ana Ruiz''), (''description'', JStr ''On marine waste''),
            (''duration'', JNum 840), (''url'', JStr ''https://ted.example/101''),
            (''thumbnail'', JStr ''https://ted.example/101.jpg'')],
      JObj [(''id'', JNum 102), (''title'', JStr ''Cities that breathe''),
            (''speaker'', JStr ''Li Wei''), (''duration'', JNum 615)]]"

definition sample_ted_payload :: jsval where
  "sample_ted_payload = JObj [(''result'', JObj [(''results'', JArr sample_talk_items)])]"

definition sample_ngo_items :: "jsval list" where
  "sample_ngo_items =
     [JObj [(''ein'', JNum 11), (''name'', JStr ''River Trust''), (''city'', JStr ''Austin''),
            (''state'', JStr ''TX''), (''ntee_code'', JStr ''C32'')],
      JObj [(''ein'', JNum 12), (''name'', JStr ''Green Roofs''), (''city'', JStr ''Boston''),
            (''state'', JStr ''MA'')],
      JObj [(''ein'', JNum 13), (''name'', JStr ''Clean Air Now''), (''city'', JStr ''Reno''),
            (''state'', JStr ''NV''), (''website'', JStr ''https://air.example'')],
      JObj [(''ein'', JNum 14), (''name'', JStr ''Seed Bank''), (''city'', JNull),
            (''state'', JStr ''OR'')],
      JObj [(''ein'', JNum 15), (''name'', JStr ''Tide Watch''), (''city'', JStr ''Miami''),
            (''state'', JStr ''FL''), (''ntee_classification'', JStr ''Environment'')]]"

definition sample_ngo_payload :: jsval where
  "sample_ngo_payload = JObj [(''organizations'', JArr sample_ngo_items)]"

text \<open>A production deployment with an admin key, healthy upstreams and a healthy driver that
  returns the legacy \<^verbatim>\<open>ops\<close> array.\<close>

definition sample_env :: env where
  "sample_env =
     \<lparr>NODE_ENV = JStr ''production'', ADMIN_API_KEY = JStr ''s3cret'',
      ted_api = Inr sample_ted_payload, propublica_api = Inr sample_ngo_payload,
      clock = (\<lambda>k. 1000 + 3 * k), storage_fault = (\<lambda>ev. None), inserted_before_fault = 0,
      talk_matches = sample_talk_matches, ngo_matches = sample_ngo_matches,
      result_has_ops = True\<rparr>"

definition empty_world :: world where
  "empty_world =
     \<lparr>mapData = [], tedTalks = [], ngos = [], messages = [], clock_reads = 0, trace = []\<rparr>"

definition cached_talk :: talk where
  "cached_talk =
     \<lparr>talk_id = JNum 7, talk_title = JStr ''Oceans of plastic'', talk_speaker = JStr ''Ana Ruiz'',
      talk_description = JUndefined, talk_duration = JNum 840, talk_url = JUndefined,
      talk_thumbnail = JUndefined, talk_type = JStr ''Video'', talk_createdAt = 5\<rparr>"

definition cached_world :: world where
  "cached_world = empty_world\<lparr>tedTalks := [cached_talk], clock_reads := 1\<rparr>"

text \<open>A world whose NGO cache holds one record, and an NGO payload whose only element has a
  city that cannot be converted to a string.\<close>

definition cached_ngo :: ngo where
  "cached_ngo =
     \<lparr>ngo_id = JNum 3, ngo_name = JStr ''Old Forest Fund'', ngo_type = JStr ''NGO'',
      ngo_description = JStr ''No description available'', ngo_website = JStr ''Not available'',
      ngo_location = JStr ''Salem, OR'', ngo_mission = JStr ''No mission statement'',
      ngo_createdAt = 4\<rparr>"

definition stocked_world :: world where
  "stocked_world = cached_world\<lparr>ngos := [cached_ngo]\<rparr>"

definition unprintable_city_payload :: jsval where
  "unprintable_city_payload =
     JObj [(''organizations'', JArr
       [JObj [(''ein'', JNum 1), (''city'', JObj [(''toString'', JNum 1)]),
              (''state'', JStr ''TX'')]])]"

definition request_with :: "(string \<times> jsval) list \<Rightarrow> (string \<times> jsval) list \<Rightarrow> request" where
  "request_with q b = \<lparr>req_query = q, req_body = b, req_headers = []\<rparr>"

text \<open>Two forced refreshes of the talks in immediate succession.\<close>

definition after_first_refresh :: world where
  "after_first_refresh = snd (fetchTEDTalks sample_env cached_world)"

definition after_second_refresh :: world where
  "after_second_refresh = snd (fetchTEDTalks sample_env after_first_refresh)"

text \<open>The records a fetcher builds, and returns, from the payload elements \<open>rs\<close> when it
  starts in the world \<open>w\<close>.\<close>

definition fresh_talks :: "env \<Rightarrow> world \<Rightarrow> jsval list \<Rightarrow> talk list" where
  "fresh_talks env w rs = stamped talk_record (clock env) (clock_reads w) rs"

definition fresh_ngos :: "env \<Rightarrow> world \<Rightarrow> jsval list \<Rightarrow> ngo list" where
  "fresh_ngos env w rs = stamped ngo_record (clock env) (clock_reads w) rs"

text \<open>A forced refresh of the NGOs over a cache that holds a record.\<close>

definition after_ngo_refresh :: world where
  "after_ngo_refresh = snd (refreshNGOData sample_env stocked_world)"

section \<open>Facts about the value layer\<close>

lemma falsy_absent: "map_of kvs k = None \<Longrightarrow> \<not> truthy (get_prop kvs k)"
  by (simp add: get_prop_def)

lemma strict_eq_string: "strict_eq a (JStr k) = (a = JStr k)"
  by (cases a) auto

lemma strict_eq_undefined: "strict_eq a JUndefined = (a = JUndefined)"
  by (cases a) auto

lemma member_access_defined:
  "\<not> nullish v \<Longrightarrow> member_access v k = Inr (field v k)"
  by (cases v) (simp_all add: nullish_def field_def)

lemma member_access_nullish: "nullish v \<Longrightarrow> member_access v k = Inl TypeError"
  by (auto simp: nullish_def)

subsection \<open>Decimal numerals\<close>

lemma digit10_range:
  "is_digit 10 c \<Longrightarrow> 48 \<le> (of_char c :: nat) \<and> (of_char c :: nat) \<le> 57"
  by (auto simp: is_digit_def digit_of_def Let_def split: if_splits)

lemma digit10_not_special:
  assumes "is_digit 10 c"
  shows "\<not> is_ws c" "c \<noteq> CHR ''+''" "c \<noteq> CHR ''-''" "c \<noteq> CHR ''x''" "c \<noteq> CHR ''X''"
    "c \<noteq> CHR ''o''" "c \<noteq> CHR ''O''" "c \<noteq> CHR ''b''" "c \<noteq> CHR ''B''" "c \<noteq> CHR ''I''"
  using digit10_range [OF assms] by (auto simp: is_ws_def)

lemma takeWhile_all: "list_all P s \<Longrightarrow> takeWhile P s = s"
  by (induction s) auto


lemma parseInt_str_digits:
  assumes "s \<noteq> []" "list_all (is_digit 10) s"
  shows "parseInt_str s = Fin (int (digits_value 10 s))"
proof -
  obtain c cs where s: "s = c # cs" using assms(1) by (cases s) auto
  have c: "is_digit 10 c" using assms(2) s by simp
  note nc = digit10_not_special [OF c]
  have hex: "(case s of a # b # _ \<Rightarrow> a = CHR ''0'' \<and> (b = CHR ''x'' \<or> b = CHR ''X'')
              | _ \<Rightarrow> False) = False"
  proof (cases cs)
    case Nil
    then show ?thesis using s by simp
  next
    case (Cons b r)
    then have "is_digit 10 b" using assms(2) s by simp
    from digit10_not_special(4,5) [OF this] show ?thesis using s Cons by simp
  qed
  show ?thesis
    using nc assms hex unfolding parseInt_str_def s
    by (simp add: takeWhile_all)
qed





lemma string_of_nat_digits: "string_of_nat n \<noteq> [] \<and> list_all (is_digit 10) (string_of_nat n)"
proof (induction n rule: string_of_nat.induct)
  case (1 n)
  have d: "k < 10 \<Longrightarrow> is_digit 10 (char_of (48 + k))" for k :: nat
    by (simp add: is_digit_def digit_of_def Let_def)
  show ?case
  proof (cases "n < 10")
    case True
    then show ?thesis using d [of n] by (simp add: string_of_nat.simps [of n])
  next
    case False
    then show ?thesis
      using 1 d [of "n mod 10"] by (simp add: string_of_nat.simps [of n])
  qed
qed

lemma digits_value_snoc:
  "digits_value r (s @ [c]) = digits_value r s * r + (case digit_of c of None \<Rightarrow> 0 | Some d \<Rightarrow> d)"
  by (simp add: digits_value_def)

lemma digit_of_char_of: "k < 10 \<Longrightarrow> digit_of (char_of (48 + k)) = Some k"
  by (simp add: digit_of_def Let_def)

lemma digits_value_string_of_nat: "digits_value 10 (string_of_nat n) = n"
proof (induction n rule: string_of_nat.induct)
  case (1 n)
  show ?case
  proof (cases "n < 10")
    case True
    then show ?thesis
      by (simp add: string_of_nat.simps [of n] digits_value_def digit_of_char_of)
  next
    case False
    then show ?thesis
      using 1 by (simp add: string_of_nat.simps [of n] digits_value_snoc digit_of_char_of)
  qed
qed

text \<open>The three coercions of a \<^verbatim>\<open>limit\<close> agree on the handler's default and on a decimal
  numeral: \<^verbatim>\<open>parseInt\<close>, and the end index of \<^verbatim>\<open>slice\<close>.\<close>

lemma parseInt_requested:
  assumes "requested_count l = Some n"
  shows "parseInt l = Inr (Fin (int n))"
proof (cases l)
  case (JNum k)
  then have k: "0 \<le> k" "k < 10 ^ 21" "n = nat k"
    using assms by (auto simp: requested_count_def split: if_splits)
  have "parseInt_str (string_of_nat (nat k)) = Fin (int (nat k))"
    using parseInt_str_digits [of "string_of_nat (nat k)"] string_of_nat_digits [of "nat k"]
    by (simp add: digits_value_string_of_nat)
  then show ?thesis using JNum k by (simp add: parseInt_def string_of_int_def)
next
  case (JStr s)
  then have "s \<noteq> []" "list_all (is_digit 10) s" "n = digits_value 10 s"
    using assms by (auto simp: requested_count_def split: if_splits)
  then show ?thesis using JStr by (simp add: parseInt_def parseInt_str_digits)
qed (use assms in \<open>auto simp: requested_count_def\<close>)




section \<open>Request validation\<close>

lemma post_map_rejects:
  assumes "\<not> truthy (get_prop (req_body req) ''location'') \<or>
           \<not> truthy (get_prop (req_body req) ''interest'')"
  shows "post_map env req w = (respond 400 (ErrorBody ''Missing required fields''), w)"
  using assms by (auto simp: post_map_def Let_def)

lemma post_send_message_rejects:
  assumes "\<not> truthy (get_prop (req_body req) ''text'') \<or>
           \<not> truthy (get_prop (req_body req) ''user'')"
  shows "post_send_message env req w = (respond 400 (ErrorBody ''Missing required fields''), w)"
  using assms by (auto simp: post_send_message_def Let_def)

text \<open>
  C6. A \<^verbatim>\<open>POST /api/send-message\<close> whose body lacks \<^verbatim>\<open>text\<close> or lacks \<^verbatim>\<open>user\<close> is
  answered with status 400, and the handler leaves the world exactly as it found it: the
  \<^verbatim>\<open>messages\<close> collection is the same and the trace of calls has gained neither an
  \<^verbatim>\<open>insertOne\<close> nor a publish.
\<close>

theorem send_message_missing_field_rejected:
  assumes "map_of (req_body req) ''text'' = None \<or> map_of (req_body req) ''user'' = None"
  shows "status (fst (post_send_message env req w)) = 400 \<and>
         post_send_message env req w = (respond 400 (ErrorBody ''Missing required fields''), w) \<and>
         messages (snd (post_send_message env req w)) = messages w \<and>
         trace (snd (post_send_message env req w)) = trace w"
proof -
  have "\<not> truthy (get_prop (req_body req) ''text'') \<or> \<not> truthy (get_prop (req_body req) ''user'')"
    using assms falsy_absent by blast
  from post_send_message_rejects [OF this, of env w] show ?thesis
    by (simp add: respond_def)
qed

theorem send_message_missing_field_rejected_witness:
  "map_of (req_body (request_with [] [(''user'', JStr ''alice'')])) ''text'' = None \<and>
   post_send_message sample_env (request_with [] [(''user'', JStr ''alice'')]) cached_world =
     (respond 400 (ErrorBody ''Missing required fields''), cached_world)"
  using send_message_missing_field_rejected
    [where req = "request_with [] [(''user'', JStr ''alice'')]" and env = sample_env
       and w = cached_world]
  by (simp add: request_with_def)

text \<open>
  C9. The required-field checks of \<^verbatim>\<open>POST /api/map\<close> and \<^verbatim>\<open>POST /api/send-message\<close>
  are falsy checks: a request in which a required field is present with the value \<^verbatim>\<open>''\<close>,
  \<^verbatim>\<open>0\<close> or \<^verbatim>\<open>null\<close> gets the same 400 response as a request in which the field is absent,
  and in both cases the world (storage included) is unchanged.
\<close>

theorem falsy_required_field_rejected:
  assumes "v = JStr '''' \<or> v = JNum 0 \<or> v = JNull"
    and "map_of (req_body present) f = Some v"
    and "map_of (req_body absent) f = None"
  shows "(f = ''location'' \<or> f = ''interest'' \<longrightarrow>
            post_map env present w = (respond 400 (ErrorBody ''Missing required fields''), w) \<and>
            post_map env absent w = post_map env present w) \<and>
         (f = ''text'' \<or> f = ''user'' \<longrightarrow>
            post_send_message env present w =
              (respond 400 (ErrorBody ''Missing required fields''), w) \<and>
            post_send_message env absent w = post_send_message env present w)"
proof -
  have p: "\<not> truthy (get_prop (req_body present) f)"
    using assms(1,2) by (auto simp: get_prop_def)
  have a: "\<not> truthy (get_prop (req_body absent) f)"
    using assms(3) by (rule falsy_absent)
  show ?thesis
    using p a by (auto simp: post_map_rejects post_send_message_rejects)
qed

theorem falsy_required_field_rejected_witness:
  "post_map sample_env
     (request_with [] [(''location'', JStr ''Pune''), (''interest'', JNum 0)]) cached_world =
     (respond 400 (ErrorBody ''Missing required fields''), cached_world) \<and>
   post_map sample_env (request_with [] [(''location'', JStr ''Pune'')]) cached_world =
     (respond 400 (ErrorBody ''Missing required fields''), cached_world) \<and>
   post_send_message sample_env
     (request_with [] [(''text'', JStr ''''), (''user'', JStr ''alice'')]) cached_world =
     (respond 400 (ErrorBody ''Missing required fields''), cached_world) \<and>
   post_send_message sample_env (request_with [] [(''user'', JStr ''alice'')]) cached_world =
     (respond 400 (ErrorBody ''Missing required fields''), cached_world)"
  using
    falsy_required_field_rejected
      [where v = "JNum 0" and f = "''interest''" and env = sample_env and w = cached_world
         and present = "request_with [] [(''location'', JStr ''Pune''), (''interest'', JNum 0)]"
         and absent = "request_with [] [(''location'', JStr ''Pune'')]"]
    falsy_required_field_rejected
      [where v = "JStr ''''" and f = "''text''" and env = sample_env and w = cached_world
         and present = "request_with [] [(''text'', JStr ''''), (''user'', JStr ''alice'')]"
         and absent = "request_with [] [(''user'', JStr ''alice'')]"]
  by (simp add: request_with_def)

section \<open>Check-in submissions\<close>

text \<open>
  C8. A valid \<^verbatim>\<open>POST /api/map\<close> (truthy \<^verbatim>\<open>location\<close> and \<^verbatim>\<open>interest\<close>) whose insert the
  driver accepts appends one record to \<^verbatim>\<open>mapData\<close>. Its \<^verbatim>\<open>createdAt\<close> is the server's clock
  reading, whatever the body holds; its \<^verbatim>\<open>category\<close> is \<^verbatim>\<open>'general'\<close> when the body has no
  \<^verbatim>\<open>category\<close>; location and interest are the submitted ones.
\<close>

theorem post_map_stored_record:
  assumes "truthy (get_prop (req_body req) ''location'')"
    and "truthy (get_prop (req_body req) ''interest'')"
    and "storage_fault env (InsertOne ''mapData'') = None"
  shows "\<exists>doc. mapData (snd (post_map env req w)) = mapData w @ [doc] \<and>
           ci_createdAt doc = clock env (clock_reads w) \<and>
           ci_location doc = get_prop (req_body req) ''location'' \<and>
           ci_interest doc = get_prop (req_body req) ''interest'' \<and>
           (map_of (req_body req) ''category'' = None \<longrightarrow> ci_category doc = JStr ''general'')"
  using assms
  by (auto simp: post_map_def Let_def new_Date_def insertOne_mapData_def storage_call_def
      record_call_def with_default_def get_prop_def split: option.splits)

theorem post_map_stored_record_witness:
  "truthy (get_prop (req_body (request_with []
       [(''location'', JStr ''Pune''), (''interest'', JStr ''water''), (''createdAt'', JNum 3)]))
     ''location'') \<and>
   storage_fault sample_env (InsertOne ''mapData'') = None \<and>
   (\<exists>doc. mapData (snd (post_map sample_env (request_with []
       [(''location'', JStr ''Pune''), (''interest'', JStr ''water''), (''createdAt'', JNum 3)])
       cached_world)) = [doc] \<and>
     ci_createdAt doc = 1003 \<and> ci_category doc = JStr ''general'')"
proof -
  let ?req = "request_with []
       [(''location'', JStr ''Pune''), (''interest'', JStr ''water''), (''createdAt'', JNum 3)]"
  have l: "truthy (get_prop (req_body ?req) ''location'')"
    by (simp add: request_with_def get_prop_def)
  have i: "truthy (get_prop (req_body ?req) ''interest'')"
    by (simp add: request_with_def get_prop_def)
  have f: "storage_fault sample_env (InsertOne ''mapData'') = None"
    by (simp add: sample_env_def)
  have c: "map_of (req_body ?req) ''category'' = None"
    by (simp add: request_with_def)
  from post_map_stored_record [OF l i f, of cached_world] c
  obtain doc where
    "mapData (snd (post_map sample_env ?req cached_world)) = mapData cached_world @ [doc]"
    "ci_createdAt doc = clock sample_env (clock_reads cached_world)"
    "ci_category doc = JStr ''general''"
    by blast
  then have "mapData (snd (post_map sample_env ?req cached_world)) = [doc] \<and>
     ci_createdAt doc = 1003 \<and> ci_category doc = JStr ''general''"
    by (simp add: sample_env_def cached_world_def empty_world_def)
  then show ?thesis using l f by blast
qed

section \<open>The loginSuccess reducer\<close>

lemma loginSuccess_defined:
  assumes "\<not> nullish payload"
  shows "loginSuccess state payload =
     Inr (state\<lparr>user := JObj
            [(''uid'', field payload ''uid''),
             (''email'', field payload ''email''),
             (''displayName'', js_or (field payload ''displayName'') (JStr '''')),
             (''photoURL'', js_or (field payload ''photoURL'') (JStr '''')),
             (''emailVerified'', js_or (field payload ''emailVerified'') (JBool False))],
          loading := False, error := JNull\<rparr>)"
  by (simp add: loginSuccess_def member_access_defined [OF assms])

lemma loginSuccess_throws: "nullish payload \<Longrightarrow> loginSuccess state payload = Inl TypeError"
  by (simp add: loginSuccess_def member_access_nullish)

lemma loginSuccess_agree:
  assumes p: "\<not> nullish payload"
    and that: "other \<noteq> JUndefined \<and> other \<noteq> JNull \<and>
        (\<forall>k \<in> set [''uid'', ''email'', ''displayName'', ''photoURL'', ''emailVerified''].
           field other k = field payload k)"
  shows "loginSuccess state other = loginSuccess state payload"
proof -
  have o: "\<not> nullish other" using that by (simp add: nullish_def)
  have e: "field other ''uid'' = field payload ''uid''"
    "field other ''email'' = field payload ''email''"
    "field other ''displayName'' = field payload ''displayName''"
    "field other ''photoURL'' = field payload ''photoURL''"
    "field other ''emailVerified'' = field payload ''emailVerified''"
    using that by simp_all
  show ?thesis
    unfolding loginSuccess_defined [OF p] loginSuccess_defined [OF o] e ..
qed

text \<open>
  C10. For every payload that is a value with properties (anything but \<^verbatim>\<open>null\<close> and
  \<^verbatim>\<open>undefined\<close>, on which the reducer throws), \<^verbatim>\<open>loginSuccess\<close> sets \<^verbatim>\<open>state.user\<close> to an
  object with exactly the five keys uid, email, displayName, photoURL and emailVerified, in
  that order. uid and email are the payload's; displayName and photoURL are the payload's
  when truthy and \<^verbatim>\<open>''\<close> otherwise (so \<^verbatim>\<open>''\<close> when missing); emailVerified is the
  payload's when truthy and \<^verbatim>\<open>false\<close> otherwise. \<^verbatim>\<open>loading\<close> becomes false and
  \<^verbatim>\<open>error\<close> null. Every other payload field is discarded: two payloads that agree on the
  five fields give the same state.
\<close>

theorem loginSuccess_stores_five_fields:
  assumes "payload \<noteq> JUndefined" and "payload \<noteq> JNull"
  shows "\<exists>kvs. loginSuccess state payload =
             Inr (state\<lparr>user := JObj kvs, loading := False, error := JNull\<rparr>) \<and>
           map fst kvs = [''uid'', ''email'', ''displayName'', ''photoURL'', ''emailVerified''] \<and>
           get_prop kvs ''uid'' = field payload ''uid'' \<and>
           get_prop kvs ''email'' = field payload ''email'' \<and>
           get_prop kvs ''displayName'' =
             (if truthy (field payload ''displayName'') then field payload ''displayName''
              else JStr '''') \<and>
           get_prop kvs ''photoURL'' =
             (if truthy (field payload ''photoURL'') then field payload ''photoURL''
              else JStr '''') \<and>
           get_prop kvs ''emailVerified'' =
             (if truthy (field payload ''emailVerified'') then field payload ''emailVerified''
              else JBool False) \<and>
           (\<forall>other. other \<noteq> JUndefined \<and> other \<noteq> JNull \<and>
              (\<forall>k \<in> set [''uid'', ''email'', ''displayName'', ''photoURL'', ''emailVerified''].
                 field other k = field payload k) \<longrightarrow>
              loginSuccess state other = loginSuccess state payload)"
proof -
  have p: "\<not> nullish payload" using assms by (simp add: nullish_def)
  let ?kvs = "[(''uid'', field payload ''uid''),
             (''email'', field payload ''email''),
             (''displayName'', js_or (field payload ''displayName'') (JStr '''')),
             (''photoURL'', js_or (field payload ''photoURL'') (JStr '''')),
             (''emailVerified'', js_or (field payload ''emailVerified'') (JBool False))]"
  have r: "loginSuccess state payload =
             Inr (state\<lparr>user := JObj ?kvs, loading := False, error := JNull\<rparr>)"
    by (rule loginSuccess_defined [OF p])
  have k: "map fst ?kvs = [''uid'', ''email'', ''displayName'', ''photoURL'', ''emailVerified'']"
    by simp
  have v1: "get_prop ?kvs ''uid'' = field payload ''uid''"
    by (simp add: get_prop_def)
  have v2: "get_prop ?kvs ''email'' = field payload ''email''"
    by (simp add: get_prop_def)
  have v3: "get_prop ?kvs ''displayName'' =
       (if truthy (field payload ''displayName'') then field payload ''displayName''
        else JStr '''')"
    by (simp add: get_prop_def js_or_def)
  have v4: "get_prop ?kvs ''photoURL'' =
       (if truthy (field payload ''photoURL'') then field payload ''photoURL'' else JStr '''')"
    by (simp add: get_prop_def js_or_def)
  have v5: "get_prop ?kvs ''emailVerified'' =
       (if truthy (field payload ''emailVerified'') then field payload ''emailVerified''
        else JBool False)"
    by (simp add: get_prop_def js_or_def)
  show ?thesis
    by (intro exI [of _ ?kvs] conjI allI impI, fact r, fact k, fact v1, fact v2, fact v3,
        fact v4, fact v5, rule loginSuccess_agree [OF p])
qed


theorem loginSuccess_stores_five_fields_witness:
  "loginSuccess (loginStart initialState)
     (JObj [(''uid'', JStr ''u1''), (''email'', JStr ''a@b.c''), (''accessToken'', JStr ''tok'')]) =
   Inr \<lparr>user = JObj [(''uid'', JStr ''u1''), (''email'', JStr ''a@b.c''),
                     (''displayName'', JStr ''''), (''photoURL'', JStr ''''),
                     (''emailVerified'', JBool False)],
        loading = False, error = JNull\<rparr>"
proof -
  let ?p = "JObj [(''uid'', JStr ''u1''), (''email'', JStr ''a@b.c''), (''accessToken'', JStr ''tok'')]"
  have d: "?p \<noteq> JUndefined" "?p \<noteq> JNull" by simp_all
  from loginSuccess_stores_five_fields [OF d, of "loginStart initialState"]
  obtain kvs where r: "loginSuccess (loginStart initialState) ?p =
        Inr ((loginStart initialState)\<lparr>user := JObj kvs, loading := False, error := JNull\<rparr>)"
    and k: "map fst kvs = [''uid'', ''email'', ''displayName'', ''photoURL'', ''emailVerified'']"
    and v1: "get_prop kvs ''uid'' = field ?p ''uid''"
    and v2: "get_prop kvs ''email'' = field ?p ''email''"
    and v3: "get_prop kvs ''displayName'' =
         (if truthy (field ?p ''displayName'') then field ?p ''displayName'' else JStr '''')"
    and v4: "get_prop kvs ''photoURL'' =
         (if truthy (field ?p ''photoURL'') then field ?p ''photoURL'' else JStr '''')"
    and v5: "get_prop kvs ''emailVerified'' =
         (if truthy (field ?p ''emailVerified'') then field ?p ''emailVerified'' else JBool False)"
    by (elim exE conjE) (rule that, assumption+)
  from k obtain a b c d e where kvs: "kvs = [(''uid'', a), (''email'', b), (''displayName'', c),
      (''photoURL'', d), (''emailVerified'', e)]"
    by (auto simp: map_eq_Cons_conv)
  have "a = JStr ''u1''" using v1 unfolding kvs by (simp add: get_prop_def field_def)
  moreover have "b = JStr ''a@b.c''" using v2 unfolding kvs by (simp add: get_prop_def field_def)
  moreover have "c = JStr ''''" using v3 unfolding kvs by (simp add: get_prop_def field_def)
  moreover have "d = JStr ''''" using v4 unfolding kvs by (simp add: get_prop_def field_def)
  moreover have "e = JBool False" using v5 unfolding kvs by (simp add: get_prop_def field_def)
  ultimately show ?thesis
    using r kvs by (simp add: loginStart_def initialState_def)
qed

section \<open>The gate of the refresh routes\<close>

text \<open>With an admin key configured, production mode rejects every request whose
  \<^verbatim>\<open>x-api-key\<close> header is missing or different, before any fetch or write.\<close>

lemma refresh_forbidden_with_key:
  assumes "NODE_ENV env = JStr ''production''" and "ADMIN_API_KEY env = JStr k"
    and "get_prop (req_headers req) ''x-api-key'' \<noteq> JStr k"
  shows "refresh_forbidden env req"
  using assms by (simp add: refresh_forbidden_def strict_eq_string)

lemma refresh_rejected_with_key:
  assumes "NODE_ENV env = JStr ''production''" and "ADMIN_API_KEY env = JStr k"
    and "get_prop (req_headers req) ''x-api-key'' \<noteq> JStr k"
  shows "post_refresh_ted_talks env req w = (respond 403 (ErrorBody ''Unauthorized''), w)"
    and "post_refresh_ngos env req w = (respond 403 (ErrorBody ''Unauthorized''), w)"
  using refresh_forbidden_with_key [OF assms]
  by (simp_all add: post_refresh_ted_talks_def post_refresh_ngos_def)

lemma refresh_gate_open_without_key:
  assumes "ADMIN_API_KEY env = JUndefined" and "map_of (req_headers req) ''x-api-key'' = None"
  shows "\<not> refresh_forbidden env req"
  using assms by (simp add: refresh_forbidden_def get_prop_def)

text \<open>
  C5. The claim: in production mode, a refresh request whose \<^verbatim>\<open>x-api-key\<close> header is
  missing or differs from the admin secret gets 403, with no fetch and no write. The code
  compares the header with \<^verbatim>\<open>process.env.ADMIN_API_KEY\<close> by \<^verbatim>\<open>!==\<close> and nothing checks
  that the variable is set: in a production deployment without \<^verbatim>\<open>ADMIN_API_KEY\<close>, a
  request without the header compares \<^verbatim>\<open>undefined\<close> with \<^verbatim>\<open>undefined\<close>, passes the gate,
  and both routes fetch upstream, replace their collection and answer 200.
\<close>

theorem refresh_not_gated_when_admin_key_unset:
  "NODE_ENV (sample_env\<lparr>ADMIN_API_KEY := JUndefined\<rparr>) = JStr ''production'' \<and>
   map_of (req_headers (request_with [] [])) ''x-api-key'' = None \<and>
   status (fst (post_refresh_ted_talks (sample_env\<lparr>ADMIN_API_KEY := JUndefined\<rparr>)
                  (request_with [] []) cached_world)) = 200 \<and>
   ted_fetches (snd (post_refresh_ted_talks (sample_env\<lparr>ADMIN_API_KEY := JUndefined\<rparr>)
                  (request_with [] []) cached_world)) = 1 \<and>
   cached_talk \<notin> set (tedTalks (snd (post_refresh_ted_talks
                  (sample_env\<lparr>ADMIN_API_KEY := JUndefined\<rparr>) (request_with [] []) cached_world))) \<and>
   status (fst (post_refresh_ngos (sample_env\<lparr>ADMIN_API_KEY := JUndefined\<rparr>)
                  (request_with [] []) cached_world)) = 200 \<and>
   ngo_fetches (snd (post_refresh_ngos (sample_env\<lparr>ADMIN_API_KEY := JUndefined\<rparr>)
                  (request_with [] []) cached_world)) = 1 \<and>
   length (ngos (snd (post_refresh_ngos (sample_env\<lparr>ADMIN_API_KEY := JUndefined\<rparr>)
                  (request_with [] []) cached_world))) = 5"
  by code_simp

section \<open>The fetch-and-replace cycle\<close>

subsection \<open>Building the records\<close>

lemma talk_of_defined:
  "\<not> nullish t \<Longrightarrow>
   talk_of env t w =
     (Inr (talk_record t (clock env (clock_reads w))), w\<lparr>clock_reads := Suc (clock_reads w)\<rparr>)"
  by (simp add: talk_of_def member_access_defined new_Date_def talk_record_def)

lemma talk_of_nullish: "\<not> \<not> nullish t \<Longrightarrow> \<exists>e. talk_of env t w = (Inl e, w)"
  by (simp add: talk_of_def member_access_nullish)

lemma ngo_of_defined:
  "ngo_item_ok t \<Longrightarrow>
   ngo_of env t w =
     (Inr (ngo_record t (clock env (clock_reads w))), w\<lparr>clock_reads := Suc (clock_reads w)\<rparr>)"
  by (auto simp: ngo_item_ok_def ngo_of_def member_access_defined new_Date_def ngo_record_def
      split: sum.splits)

lemma ngo_of_rejects: "\<not> ngo_item_ok t \<Longrightarrow> \<exists>e. ngo_of env t w = (Inl e, w)"
  by (cases "nullish t")
     (auto simp: ngo_item_ok_def ngo_of_def member_access_nullish member_access_defined
        split: sum.splits)

text \<open>The \<^verbatim>\<open>map\<close> loop over a payload whose elements the callback accepts builds one
  record per element, in order, and only reads the clock.\<close>

lemma map_records_ok:
  assumes f: "\<And>x v. ok x \<Longrightarrow>
      f x v = (Inr (mk x (clk (clock_reads v))), v\<lparr>clock_reads := Suc (clock_reads v)\<rparr>)"
    and ok: "list_all ok rs"
  shows "map_records f rs w =
     (Inr (stamped mk clk (clock_reads w) rs), w\<lparr>clock_reads := clock_reads w + length rs\<rparr>)"
  using ok
proof (induction rs arbitrary: w)
  case Nil
  then show ?case by simp
next
  case (Cons x xs)
  then have x: "ok x" and xs: "list_all ok xs" by simp_all
  show ?case
    by (simp add: f [OF x] Cons.IH [OF xs])
qed

text \<open>On a payload with an element the callback throws on, the loop throws; until then it
  has only read the clock.\<close>

lemma map_records_throws:
  assumes f: "\<And>x v. ok x \<Longrightarrow>
      f x v = (Inr (mk x (clk (clock_reads v))), v\<lparr>clock_reads := Suc (clock_reads v)\<rparr>)"
    and g: "\<And>x v. \<not> ok x \<Longrightarrow> \<exists>e. f x v = (Inl e, v)"
    and bad: "\<not> list_all ok rs"
  shows "\<exists>e n. map_records f rs w = (Inl e, w\<lparr>clock_reads := n\<rparr>)"
  using bad
proof (induction rs arbitrary: w)
  case Nil
  then show ?case by simp
next
  case (Cons x xs)
  show ?case
  proof (cases "ok x")
    case False
    from g [OF False, of w] obtain e where "f x w = (Inl e, w)" ..
    then have "map_records f (x # xs) w = (Inl e, w\<lparr>clock_reads := clock_reads w\<rparr>)"
      by simp
    then show ?thesis by blast
  next
    case True
    then have "\<not> list_all ok xs" using Cons.prems by simp
    from Cons.IH [OF this, of "w\<lparr>clock_reads := Suc (clock_reads w)\<rparr>"]
    obtain e n where "map_records f xs (w\<lparr>clock_reads := Suc (clock_reads w)\<rparr>) =
        (Inl e, w\<lparr>clock_reads := n\<rparr>)"
      by auto
    then have "map_records f (x # xs) w = (Inl e, w\<lparr>clock_reads := n\<rparr>)"
      by (simp add: f [OF True])
    then show ?thesis by blast
  qed
qed

lemma length_stamped: "length (stamped mk clk k rs) = length rs"
  by (induction rs arbitrary: k) simp_all

lemma stamped_without_createdAt:
  "map without_createdAt (stamped talk_record clk k rs) = map (\<lambda>t. talk_record t 0) rs"
  by (induction rs arbitrary: k) (simp_all add: without_createdAt_def talk_record_def)

subsection \<open>fetchTEDTalks\<close>

text \<open>When the upstream fetch fails, the fetcher throws after its one upstream request and
  before any storage call.\<close>

lemma fetchTEDTalks_fails:
  assumes "ted_fetch_fails env"
  shows "\<exists>e n. fetchTEDTalks env w =
           (Inl e, w\<lparr>clock_reads := n, trace := trace w @ [AxiosGet TED_URL]\<rparr>)"
proof (cases "ted_api env")
  case (Inl e)
  have "fetchTEDTalks env w =
      (Inl e, w\<lparr>clock_reads := clock_reads w, trace := trace w @ [AxiosGet TED_URL]\<rparr>)"
    by (simp add: fetchTEDTalks_def Inl record_call_def)
  then show ?thesis by blast
next
  case (Inr data)
  then have bad: "\<not> ted_payload_ok data" using assms by (simp add: ted_fetch_fails_def)
  show ?thesis
  proof (cases "ted_results data")
    case (Inl e)
    have "fetchTEDTalks env w =
        (Inl e, w\<lparr>clock_reads := clock_reads w, trace := trace w @ [AxiosGet TED_URL]\<rparr>)"
      by (simp add: fetchTEDTalks_def Inl \<open>ted_api env = Inr data\<close> record_call_def)
    then show ?thesis by blast
  next
    case rs: (Inr rs)
    then have "\<not> list_all (\<lambda>x. \<not> nullish x) rs" using bad by (simp add: ted_payload_ok_def)
    from map_records_throws [where ok = "(\<lambda>x. \<not> nullish x)" and f = "talk_of env"
        and mk = talk_record and clk = "clock env" and w = "record_call (AxiosGet TED_URL) w",
        OF talk_of_defined talk_of_nullish this]
    obtain e' n where "map_records (talk_of env) rs (record_call (AxiosGet TED_URL) w) =
        (Inl e', (record_call (AxiosGet TED_URL) w)\<lparr>clock_reads := n\<rparr>)"
      by blast
    then have "fetchTEDTalks env w =
        (Inl e', w\<lparr>clock_reads := n, trace := trace w @ [AxiosGet TED_URL]\<rparr>)"
      by (simp add: fetchTEDTalks_def rs \<open>ted_api env = Inr data\<close> record_call_def)
    then show ?thesis by blast
  qed
qed

text \<open>On a payload it can normalise, the fetcher reaches the two storage calls with the
  records built.\<close>

lemma fetchTEDTalks_payload_ok:
  assumes "ted_api env = Inr data" and "ted_results data = Inr rs"
    and "list_all (\<lambda>x. \<not> nullish x) rs"
  shows "fetchTEDTalks env w =
     (case deleteMany_tedTalks env
             (w\<lparr>clock_reads := clock_reads w + length rs,
                trace := trace w @ [AxiosGet TED_URL]\<rparr>) of
        (Inl e, w3) \<Rightarrow> (Inl e, w3)
      | (Inr u, w3) \<Rightarrow>
          (case insertMany_tedTalks env (stamped talk_record (clock env) (clock_reads w) rs) w3 of
             (Inl e, w4) \<Rightarrow> (Inl e, w4)
           | (Inr u', w4) \<Rightarrow> (Inr (stamped talk_record (clock env) (clock_reads w) rs), w4)))"
proof -
  have "map_records (talk_of env) rs (record_call (AxiosGet TED_URL) w) =
      (Inr (stamped talk_record (clock env) (clock_reads w) rs),
       w\<lparr>clock_reads := clock_reads w + length rs, trace := trace w @ [AxiosGet TED_URL]\<rparr>)"
    using map_records_ok [where ok = "(\<lambda>x. \<not> nullish x)" and f = "talk_of env"
        and mk = talk_record and clk = "clock env" and w = "record_call (AxiosGet TED_URL) w",
        OF talk_of_defined assms(3)]
    by (simp add: record_call_def)
  then show ?thesis
    by (simp add: fetchTEDTalks_def assms(1,2))
qed

lemma fetchTEDTalks_succeeds:
  assumes "ted_api env = Inr data" and "ted_results data = Inr rs"
    and "list_all (\<lambda>x. \<not> nullish x) rs"
    and "storage_fault env (DeleteMany ''tedTalks'') = None"
    and "storage_fault env (InsertMany ''tedTalks'' (length rs)) = None"
  shows "fetchTEDTalks env w =
     (Inr (stamped talk_record (clock env) (clock_reads w) rs),
      w\<lparr>tedTalks := stamped talk_record (clock env) (clock_reads w) rs,
        clock_reads := clock_reads w + length rs,
        trace := trace w @ [AxiosGet TED_URL, DeleteMany ''tedTalks'',
                            InsertMany ''tedTalks'' (length rs)]\<rparr>)"
  by (simp add: fetchTEDTalks_payload_ok [OF assms(1-3)] deleteMany_tedTalks_def
      insertMany_tedTalks_def storage_call_def record_call_def assms(4,5) length_stamped)

text \<open>A fetcher that returns has gone through the whole cycle.\<close>

lemma fetchTEDTalks_returns:
  assumes "fetchTEDTalks env w = (Inr talks, w')"
  shows "\<exists>data rs. ted_api env = Inr data \<and> ted_results data = Inr rs \<and>
           list_all (\<lambda>x. \<not> nullish x) rs \<and>
           storage_fault env (DeleteMany ''tedTalks'') = None \<and>
           storage_fault env (InsertMany ''tedTalks'' (length rs)) = None"
proof (cases "ted_fetch_fails env")
  case True
  from fetchTEDTalks_fails [OF this, of w] show ?thesis using assms by auto
next
  case False
  then obtain data where data: "ted_api env = Inr data" and "ted_payload_ok data"
    by (auto simp: ted_fetch_fails_def split: sum.splits)
  then obtain rs where rs: "ted_results data = Inr rs" and ok: "list_all (\<lambda>x. \<not> nullish x) rs"
    by (auto simp: ted_payload_ok_def split: sum.splits)
  have "storage_fault env (DeleteMany ''tedTalks'') = None"
    using assms
    by (auto simp: fetchTEDTalks_payload_ok [OF data rs ok] deleteMany_tedTalks_def
        storage_call_def split: option.splits)
  moreover from this have "storage_fault env (InsertMany ''tedTalks'' (length rs)) = None"
    using assms
    by (auto simp: fetchTEDTalks_payload_ok [OF data rs ok] deleteMany_tedTalks_def
        insertMany_tedTalks_def storage_call_def length_stamped split: option.splits)
  ultimately show ?thesis using data rs ok by blast
qed

text \<open>Whatever its outcome, the fetcher makes exactly one upstream request.\<close>

lemma fetchTEDTalks_one_request:
  "ted_fetches (snd (fetchTEDTalks env w)) = Suc (ted_fetches w)"
proof (cases "ted_fetch_fails env")
  case True
  from fetchTEDTalks_fails [OF this, of w] show ?thesis
    by (auto simp: ted_fetches_def)
next
  case False
  then obtain data where data: "ted_api env = Inr data" and "ted_payload_ok data"
    by (auto simp: ted_fetch_fails_def split: sum.splits)
  then obtain rs where rs: "ted_results data = Inr rs" and ok: "list_all (\<lambda>x. \<not> nullish x) rs"
    by (auto simp: ted_payload_ok_def split: sum.splits)
  show ?thesis
    by (simp add: fetchTEDTalks_payload_ok [OF data rs ok] deleteMany_tedTalks_def
        insertMany_tedTalks_def storage_call_def record_call_def ted_fetches_def
        split: option.splits)
qed

subsection \<open>refreshNGOData\<close>

text \<open>The same facts for the NGO fetcher.\<close>

lemma refreshNGOData_fails:
  assumes "ngo_fetch_fails env"
  shows "\<exists>e n. refreshNGOData env w =
           (Inl e, w\<lparr>clock_reads := n, trace := trace w @ [AxiosGet PROPUBLICA_URL]\<rparr>)"
proof (cases "propublica_api env")
  case (Inl e)
  have "refreshNGOData env w =
      (Inl e, w\<lparr>clock_reads := clock_reads w, trace := trace w @ [AxiosGet PROPUBLICA_URL]\<rparr>)"
    by (simp add: refreshNGOData_def Inl record_call_def)
  then show ?thesis by blast
next
  case (Inr data)
  then have bad: "\<not> ngo_payload_ok data" using assms by (simp add: ngo_fetch_fails_def)
  show ?thesis
  proof (cases "ngo_results data")
    case (Inl e)
    have "refreshNGOData env w =
        (Inl e, w\<lparr>clock_reads := clock_reads w, trace := trace w @ [AxiosGet PROPUBLICA_URL]\<rparr>)"
      by (simp add: refreshNGOData_def Inl \<open>propublica_api env = Inr data\<close> record_call_def)
    then show ?thesis by blast
  next
    case rs: (Inr rs)
    then have "\<not> list_all ngo_item_ok rs" using bad by (simp add: ngo_payload_ok_def)
    from map_records_throws [where ok = "ngo_item_ok" and f = "ngo_of env"
        and mk = ngo_record and clk = "clock env" and w = "record_call (AxiosGet PROPUBLICA_URL) w",
        OF ngo_of_defined ngo_of_rejects this]
    obtain e' n where "map_records (ngo_of env) rs (record_call (AxiosGet PROPUBLICA_URL) w) =
        (Inl e', (record_call (AxiosGet PROPUBLICA_URL) w)\<lparr>clock_reads := n\<rparr>)"
      by blast
    then have "refreshNGOData env w =
        (Inl e', w\<lparr>clock_reads := n, trace := trace w @ [AxiosGet PROPUBLICA_URL]\<rparr>)"
      by (simp add: refreshNGOData_def rs \<open>propublica_api env = Inr data\<close> record_call_def)
    then show ?thesis by blast
  qed
qed

lemma refreshNGOData_payload_ok:
  assumes "propublica_api env = Inr data" and "ngo_results data = Inr rs"
    and "list_all ngo_item_ok rs"
  shows "refreshNGOData env w =
     (case deleteMany_ngos env
             (w\<lparr>clock_reads := clock_reads w + length rs,
                trace := trace w @ [AxiosGet PROPUBLICA_URL]\<rparr>) of
        (Inl e, w3) \<Rightarrow> (Inl e, w3)
      | (Inr u, w3) \<Rightarrow>
          (case insertMany_ngos env (stamped ngo_record (clock env) (clock_reads w) rs) w3 of
             (Inl e, w4) \<Rightarrow> (Inl e, w4)
           | (Inr u', w4) \<Rightarrow> (Inr (stamped ngo_record (clock env) (clock_reads w) rs), w4)))"
proof -
  have "map_records (ngo_of env) rs (record_call (AxiosGet PROPUBLICA_URL) w) =
      (Inr (stamped ngo_record (clock env) (clock_reads w) rs),
       w\<lparr>clock_reads := clock_reads w + length rs, trace := trace w @ [AxiosGet PROPUBLICA_URL]\<rparr>)"
    using map_records_ok [where ok = "ngo_item_ok" and f = "ngo_of env"
        and mk = ngo_record and clk = "clock env" and w = "record_call (AxiosGet PROPUBLICA_URL) w",
        OF ngo_of_defined assms(3)]
    by (simp add: record_call_def)
  then show ?thesis
    by (simp add: refreshNGOData_def assms(1,2))
qed

lemma refreshNGOData_succeeds:
  assumes "propublica_api env = Inr data" and "ngo_results data = Inr rs"
    and "list_all ngo_item_ok rs"
    and "storage_fault env (DeleteMany ''ngos'') = None"
    and "storage_fault env (InsertMany ''ngos'' (length rs)) = None"
  shows "refreshNGOData env w =
     (Inr (stamped ngo_record (clock env) (clock_reads w) rs),
      w\<lparr>ngos := stamped ngo_record (clock env) (clock_reads w) rs,
        clock_reads := clock_reads w + length rs,
        trace := trace w @ [AxiosGet PROPUBLICA_URL, DeleteMany ''ngos'',
                            InsertMany ''ngos'' (length rs)]\<rparr>)"
  by (simp add: refreshNGOData_payload_ok [OF assms(1-3)] deleteMany_ngos_def
      insertMany_ngos_def storage_call_def record_call_def assms(4,5) length_stamped)

lemma refreshNGOData_returns:
  assumes "refreshNGOData env w = (Inr found, w')"
  shows "\<exists>data rs. propublica_api env = Inr data \<and> ngo_results data = Inr rs \<and>
           list_all ngo_item_ok rs \<and>
           storage_fault env (DeleteMany ''ngos'') = None \<and>
           storage_fault env (InsertMany ''ngos'' (length rs)) = None"
proof (cases "ngo_fetch_fails env")
  case True
  from refreshNGOData_fails [OF this, of w] show ?thesis using assms by auto
next
  case False
  then obtain data where data: "propublica_api env = Inr data" and "ngo_payload_ok data"
    by (auto simp: ngo_fetch_fails_def split: sum.splits)
  then obtain rs where rs: "ngo_results data = Inr rs" and ok: "list_all ngo_item_ok rs"
    by (auto simp: ngo_payload_ok_def split: sum.splits)
  have "storage_fault env (DeleteMany ''ngos'') = None"
    using assms
    by (auto simp: refreshNGOData_payload_ok [OF data rs ok] deleteMany_ngos_def
        storage_call_def split: option.splits)
  moreover from this have "storage_fault env (InsertMany ''ngos'' (length rs)) = None"
    using assms
    by (auto simp: refreshNGOData_payload_ok [OF data rs ok] deleteMany_ngos_def
        insertMany_ngos_def storage_call_def length_stamped split: option.splits)
  ultimately show ?thesis using data rs ok by blast
qed

lemma refreshNGOData_one_request:
  "ngo_fetches (snd (refreshNGOData env w)) = Suc (ngo_fetches w)"
proof (cases "ngo_fetch_fails env")
  case True
  from refreshNGOData_fails [OF this, of w] show ?thesis
    by (auto simp: ngo_fetches_def)
next
  case False
  then obtain data where data: "propublica_api env = Inr data" and "ngo_payload_ok data"
    by (auto simp: ngo_fetch_fails_def split: sum.splits)
  then obtain rs where rs: "ngo_results data = Inr rs" and ok: "list_all ngo_item_ok rs"
    by (auto simp: ngo_payload_ok_def split: sum.splits)
  show ?thesis
    by (simp add: refreshNGOData_payload_ok [OF data rs ok] deleteMany_ngos_def
        insertMany_ngos_def storage_call_def record_call_def ngo_fetches_def
        split: option.splits)
qed

section \<open>Forced refresh\<close>

text \<open>Facts about the samples.\<close>

lemma sample_ted_facts:
  "ted_api sample_env = Inr sample_ted_payload"
  "ted_results sample_ted_payload = Inr sample_talk_items"
  "list_all (\<lambda>x. \<not> nullish x) sample_talk_items"
  "storage_fault sample_env ev = None"
  "length sample_talk_items = 2"
  by (simp_all add: sample_env_def sample_ted_payload_def ted_results_def get_prop_def
      as_array_def sample_talk_items_def nullish_def)

lemma sample_ngo_items_ok: "list_all ngo_item_ok sample_ngo_items"
  by code_simp

lemma sample_ngo_facts:
  "propublica_api sample_env = Inr sample_ngo_payload"
  "ngo_results sample_ngo_payload = Inr sample_ngo_items"
  "list_all ngo_item_ok sample_ngo_items"
  "length sample_ngo_items = 5"
  by (simp_all add: sample_env_def sample_ngo_payload_def ngo_results_def get_prop_def
      as_array_def sample_ngo_items_ok) (simp add: sample_ngo_items_def)

text \<open>A fetcher that returns has built its records from the payload of this invocation,
  had its \<^verbatim>\<open>deleteMany\<close> and \<^verbatim>\<open>insertMany\<close> accepted, and left exactly those records
  in its collection; nothing else in the world has changed but the clock and the trace.\<close>

lemma fetchTEDTalks_completed:
  assumes "fetchTEDTalks env w = (Inr talks, w')"
  shows "\<exists>data rs. ted_api env = Inr data \<and> ted_results data = Inr rs \<and>
           storage_fault env (DeleteMany ''tedTalks'') = None \<and>
           storage_fault env (InsertMany ''tedTalks'' (length rs)) = None \<and>
           talks = fresh_talks env w rs \<and> length talks = length rs \<and>
           w' = w\<lparr>tedTalks := talks, clock_reads := clock_reads w + length rs,
                  trace := trace w @ [AxiosGet TED_URL, DeleteMany ''tedTalks'',
                                      InsertMany ''tedTalks'' (length rs)]\<rparr>"
proof -
  from fetchTEDTalks_returns [OF assms] obtain data rs where
    h: "ted_api env = Inr data" "ted_results data = Inr rs" "list_all (\<lambda>x. \<not> nullish x) rs"
      "storage_fault env (DeleteMany ''tedTalks'') = None"
      "storage_fault env (InsertMany ''tedTalks'' (length rs)) = None"
    by blast
  from fetchTEDTalks_succeeds [OF h, of w] assms
  have "talks = fresh_talks env w rs" and
    "w' = w\<lparr>tedTalks := talks, clock_reads := clock_reads w + length rs,
           trace := trace w @ [AxiosGet TED_URL, DeleteMany ''tedTalks'',
                               InsertMany ''tedTalks'' (length rs)]\<rparr>"
    by (simp_all add: fresh_talks_def)
  moreover from this have "length talks = length rs"
    by (simp add: fresh_talks_def length_stamped)
  ultimately show ?thesis using h by blast
qed

lemma refreshNGOData_completed:
  assumes "refreshNGOData env w = (Inr found, w')"
  shows "\<exists>data rs. propublica_api env = Inr data \<and> ngo_results data = Inr rs \<and>
           storage_fault env (DeleteMany ''ngos'') = None \<and>
           storage_fault env (InsertMany ''ngos'' (length rs)) = None \<and>
           found = fresh_ngos env w rs \<and> length found = length rs \<and>
           w' = w\<lparr>ngos := found, clock_reads := clock_reads w + length rs,
                  trace := trace w @ [AxiosGet PROPUBLICA_URL, DeleteMany ''ngos'',
                                      InsertMany ''ngos'' (length rs)]\<rparr>"
proof -
  from refreshNGOData_returns [OF assms] obtain data rs where
    h: "propublica_api env = Inr data" "ngo_results data = Inr rs" "list_all ngo_item_ok rs"
      "storage_fault env (DeleteMany ''ngos'') = None"
      "storage_fault env (InsertMany ''ngos'' (length rs)) = None"
    by blast
  from refreshNGOData_succeeds [OF h, of w] assms
  have "found = fresh_ngos env w rs" and
    "w' = w\<lparr>ngos := found, clock_reads := clock_reads w + length rs,
           trace := trace w @ [AxiosGet PROPUBLICA_URL, DeleteMany ''ngos'',
                               InsertMany ''ngos'' (length rs)]\<rparr>"
    by (simp_all add: fresh_ngos_def)
  moreover from this have "length found = length rs"
    by (simp add: fresh_ngos_def length_stamped)
  ultimately show ?thesis using h by blast
qed

text \<open>What the collection held before has no influence on a completed refresh.\<close>

lemma fetchTEDTalks_ignores_old:
  assumes "fetchTEDTalks env w = (Inr talks, w')"
  shows "fetchTEDTalks env (w\<lparr>tedTalks := old\<rparr>) = (Inr talks, w')"
proof -
  from fetchTEDTalks_returns [OF assms] obtain data rs where
    h: "ted_api env = Inr data" "ted_results data = Inr rs" "list_all (\<lambda>x. \<not> nullish x) rs"
      "storage_fault env (DeleteMany ''tedTalks'') = None"
      "storage_fault env (InsertMany ''tedTalks'' (length rs)) = None"
    by blast
  from fetchTEDTalks_succeeds [OF h, of w] fetchTEDTalks_succeeds [OF h, of "w\<lparr>tedTalks := old\<rparr>"]
    assms
  show ?thesis by simp
qed

lemma refreshNGOData_ignores_old:
  assumes "refreshNGOData env w = (Inr found, w')"
  shows "refreshNGOData env (w\<lparr>ngos := old\<rparr>) = (Inr found, w')"
proof -
  from refreshNGOData_returns [OF assms] obtain data rs where
    h: "propublica_api env = Inr data" "ngo_results data = Inr rs" "list_all ngo_item_ok rs"
      "storage_fault env (DeleteMany ''ngos'') = None"
      "storage_fault env (InsertMany ''ngos'' (length rs)) = None"
    by blast
  from refreshNGOData_succeeds [OF h, of w] refreshNGOData_succeeds [OF h, of "w\<lparr>ngos := old\<rparr>"]
    assms
  show ?thesis by simp
qed

text \<open>
  C2. After a forced refresh that completes (\<^verbatim>\<open>fetchTEDTalks\<close> or \<^verbatim>\<open>refreshNGOData\<close>
  returns its records):
  \<^item> the records returned are the ones built in this invocation, one per element of the
    payload this invocation received, in the payload's order and stamped with this
    invocation's clock readings;
  \<^item> the collection of that content type is exactly the returned list;
  \<^item> the invocation made one upstream request, then a \<^verbatim>\<open>deleteMany({})\<close> and an
    \<^verbatim>\<open>insertMany\<close> of the whole batch, both accepted, and no other call;
  \<^item> nothing that was stored before survives: had the collection held any other records
    before, the invocation would have returned the same records and left the same world;
  \<^item> the other three collections are untouched.
\<close>

theorem forceRefresh_replaces_collection:
  "(fetchTEDTalks env w = (Inr talks, w1) \<longrightarrow>
      (\<exists>data rs. ted_api env = Inr data \<and> ted_results data = Inr rs \<and>
                 talks = fresh_talks env w rs \<and> length talks = length rs) \<and>
      tedTalks w1 = talks \<and>
      trace w1 = trace w @ [AxiosGet TED_URL, DeleteMany ''tedTalks'',
                            InsertMany ''tedTalks'' (length talks)] \<and>
      storage_fault env (DeleteMany ''tedTalks'') = None \<and>
      storage_fault env (InsertMany ''tedTalks'' (length talks)) = None \<and>
      (\<forall>old. fetchTEDTalks env (w\<lparr>tedTalks := old\<rparr>) = (Inr talks, w1)) \<and>
      ngos w1 = ngos w \<and> mapData w1 = mapData w \<and> messages w1 = messages w) \<and>
   (refreshNGOData env w = (Inr found, w2) \<longrightarrow>
      (\<exists>data rs. propublica_api env = Inr data \<and> ngo_results data = Inr rs \<and>
                 found = fresh_ngos env w rs \<and> length found = length rs) \<and>
      ngos w2 = found \<and>
      trace w2 = trace w @ [AxiosGet PROPUBLICA_URL, DeleteMany ''ngos'',
                            InsertMany ''ngos'' (length found)] \<and>
      storage_fault env (DeleteMany ''ngos'') = None \<and>
      storage_fault env (InsertMany ''ngos'' (length found)) = None \<and>
      (\<forall>old. refreshNGOData env (w\<lparr>ngos := old\<rparr>) = (Inr found, w2)) \<and>
      tedTalks w2 = tedTalks w \<and> mapData w2 = mapData w \<and> messages w2 = messages w)"
proof (intro conjI impI allI)
  assume a: "fetchTEDTalks env w = (Inr talks, w1)"
  from fetchTEDTalks_completed [OF a] obtain data rs where
    d: "ted_api env = Inr data" "ted_results data = Inr rs"
    and f: "storage_fault env (DeleteMany ''tedTalks'') = None"
      "storage_fault env (InsertMany ''tedTalks'' (length rs)) = None"
    and t: "talks = fresh_talks env w rs" "length talks = length rs"
    and w1: "w1 = w\<lparr>tedTalks := talks, clock_reads := clock_reads w + length rs,
                  trace := trace w @ [AxiosGet TED_URL, DeleteMany ''tedTalks'',
                                      InsertMany ''tedTalks'' (length rs)]\<rparr>"
    by blast
  show "\<exists>data rs. ted_api env = Inr data \<and> ted_results data = Inr rs \<and>
                 talks = fresh_talks env w rs \<and> length talks = length rs"
    using d t by blast
  show "tedTalks w1 = talks" by (simp add: w1)
  show "trace w1 = trace w @ [AxiosGet TED_URL, DeleteMany ''tedTalks'',
                            InsertMany ''tedTalks'' (length talks)]"
    by (simp add: w1 t(2))
  show "storage_fault env (DeleteMany ''tedTalks'') = None" by (rule f(1))
  show "storage_fault env (InsertMany ''tedTalks'' (length talks)) = None"
    using f(2) by (simp add: t(2))
  show "fetchTEDTalks env (w\<lparr>tedTalks := old\<rparr>) = (Inr talks, w1)" for old
    by (rule fetchTEDTalks_ignores_old [OF a])
  show "ngos w1 = ngos w" by (simp add: w1)
  show "mapData w1 = mapData w" by (simp add: w1)
  show "messages w1 = messages w" by (simp add: w1)
next
  assume a: "refreshNGOData env w = (Inr found, w2)"
  from refreshNGOData_completed [OF a] obtain data rs where
    d: "propublica_api env = Inr data" "ngo_results data = Inr rs"
    and f: "storage_fault env (DeleteMany ''ngos'') = None"
      "storage_fault env (InsertMany ''ngos'' (length rs)) = None"
    and t: "found = fresh_ngos env w rs" "length found = length rs"
    and w2: "w2 = w\<lparr>ngos := found, clock_reads := clock_reads w + length rs,
                  trace := trace w @ [AxiosGet PROPUBLICA_URL, DeleteMany ''ngos'',
                                      InsertMany ''ngos'' (length rs)]\<rparr>"
    by blast
  show "\<exists>data rs. propublica_api env = Inr data \<and> ngo_results data = Inr rs \<and>
                 found = fresh_ngos env w rs \<and> length found = length rs"
    using d t by blast
  show "ngos w2 = found" by (simp add: w2)
  show "trace w2 = trace w @ [AxiosGet PROPUBLICA_URL, DeleteMany ''ngos'',
                            InsertMany ''ngos'' (length found)]"
    by (simp add: w2 t(2))
  show "storage_fault env (DeleteMany ''ngos'') = None" by (rule f(1))
  show "storage_fault env (InsertMany ''ngos'' (length found)) = None"
    using f(2) by (simp add: t(2))
  show "refreshNGOData env (w\<lparr>ngos := old\<rparr>) = (Inr found, w2)" for old
    by (rule refreshNGOData_ignores_old [OF a])
  show "tedTalks w2 = tedTalks w" by (simp add: w2)
  show "mapData w2 = mapData w" by (simp add: w2)
  show "messages w2 = messages w" by (simp add: w2)
qed

theorem forceRefresh_replaces_collection_witness:
  "fetchTEDTalks sample_env cached_world =
     (Inr (tedTalks after_first_refresh), after_first_refresh) \<and>
   tedTalks cached_world = [cached_talk] \<and>
   tedTalks after_first_refresh = fresh_talks sample_env cached_world sample_talk_items \<and>
   length (tedTalks after_first_refresh) = 2 \<and>
   cached_talk \<notin> set (tedTalks after_first_refresh) \<and>
   trace after_first_refresh =
     [AxiosGet TED_URL, DeleteMany ''tedTalks'', InsertMany ''tedTalks'' 2] \<and>
   refreshNGOData sample_env stocked_world =
     (Inr (ngos after_ngo_refresh), after_ngo_refresh) \<and>
   ngos stocked_world = [cached_ngo] \<and>
   ngos after_ngo_refresh = fresh_ngos sample_env stocked_world sample_ngo_items \<and>
   length (ngos after_ngo_refresh) = 5 \<and>
   cached_ngo \<notin> set (ngos after_ngo_refresh) \<and>
   trace after_ngo_refresh =
     [AxiosGet PROPUBLICA_URL, DeleteMany ''ngos'', InsertMany ''ngos'' 5] \<and>
   tedTalks after_ngo_refresh = [cached_talk]"
proof -
  have c: "tedTalks cached_world = [cached_talk]" "trace cached_world = []"
    "ngos stocked_world = [cached_ngo]" "trace stocked_world = []"
    "tedTalks stocked_world = [cached_talk]"
    by (simp_all add: stocked_world_def cached_world_def empty_world_def)
  have e1: "fetchTEDTalks sample_env cached_world =
      (Inr (tedTalks after_first_refresh), after_first_refresh)"
    by (simp add: after_first_refresh_def
        fetchTEDTalks_succeeds [OF sample_ted_facts(1-3) sample_ted_facts(4) sample_ted_facts(4)])
  have e2: "refreshNGOData sample_env stocked_world =
      (Inr (ngos after_ngo_refresh), after_ngo_refresh)"
    by (simp add: after_ngo_refresh_def
        refreshNGOData_succeeds [OF sample_ngo_facts(1-3) sample_ted_facts(4) sample_ted_facts(4)])
  note t = forceRefresh_replaces_collection [where env = sample_env and w = cached_world
      and talks = "tedTalks after_first_refresh" and ?w1.0 = after_first_refresh,
      THEN conjunct1, THEN mp, OF e1]
  note n = forceRefresh_replaces_collection [where env = sample_env and w = stocked_world
      and found = "ngos after_ngo_refresh" and ?w2.0 = after_ngo_refresh,
      THEN conjunct2, THEN mp, OF e2]
  from t [THEN conjunct1] obtain data rs where
    "ted_api sample_env = Inr data" "ted_results data = Inr rs"
    "tedTalks after_first_refresh = fresh_talks sample_env cached_world rs"
    "length (tedTalks after_first_refresh) = length rs"
    by (elim exE conjE) (rule that, assumption+)
  then have t1: "tedTalks after_first_refresh = fresh_talks sample_env cached_world sample_talk_items"
    and t2: "length (tedTalks after_first_refresh) = 2"
    using sample_ted_facts(1,2,5) by auto
  from n [THEN conjunct1] obtain data' rs' where
    "propublica_api sample_env = Inr data'" "ngo_results data' = Inr rs'"
    "ngos after_ngo_refresh = fresh_ngos sample_env stocked_world rs'"
    "length (ngos after_ngo_refresh) = length rs'"
    by (elim exE conjE) (rule that, assumption+)
  then have n1: "ngos after_ngo_refresh = fresh_ngos sample_env stocked_world sample_ngo_items"
    and n2: "length (ngos after_ngo_refresh) = 5"
    using sample_ngo_facts(1,2,4) by auto
  have t3: "trace after_first_refresh =
     [AxiosGet TED_URL, DeleteMany ''tedTalks'', InsertMany ''tedTalks'' 2]"
    using t [THEN conjunct2, THEN conjunct2, THEN conjunct1] by (simp add: c t2)
  have n3: "trace after_ngo_refresh =
     [AxiosGet PROPUBLICA_URL, DeleteMany ''ngos'', InsertMany ''ngos'' 5]"
    using n [THEN conjunct2, THEN conjunct2, THEN conjunct1] by (simp add: c n2)
  have n4: "tedTalks after_ngo_refresh = [cached_talk]"
    using n [THEN conjunct2, THEN conjunct2, THEN conjunct2, THEN conjunct2, THEN conjunct2,
        THEN conjunct2, THEN conjunct1]
    by (simp add: c)
  have x1: "cached_talk \<notin> set (fresh_talks sample_env cached_world sample_talk_items)"
    by code_simp
  have x2: "cached_ngo \<notin> set (fresh_ngos sample_env stocked_world sample_ngo_items)"
    by code_simp
  show ?thesis
    by (intro conjI, fact e1, fact c(1), fact t1, fact t2, simp only: t1, fact x1, fact t3,
        fact e2, fact c(3), fact n1, fact n2, simp only: n1, fact x2, fact n3, fact n4)
qed

text \<open>
  C7. Two forced refreshes of the talks in immediate succession, both completing against
  the same upstream response, leave the collection with the same number of records and,
  record by record, the same content once \<^verbatim>\<open>createdAt\<close> is blanked.
\<close>

theorem forceRefresh_talks_idempotent:
  assumes "fetchTEDTalks env w = (Inr t1, w1)" and "fetchTEDTalks env w1 = (Inr t2, w2)"
  shows "length (tedTalks w2) = length (tedTalks w1) \<and>
         map without_createdAt (tedTalks w2) = map without_createdAt (tedTalks w1)"
proof -
  from fetchTEDTalks_returns [OF assms(1)] obtain data rs where
    h: "ted_api env = Inr data" "ted_results data = Inr rs" "list_all (\<lambda>x. \<not> nullish x) rs"
      "storage_fault env (DeleteMany ''tedTalks'') = None"
      "storage_fault env (InsertMany ''tedTalks'' (length rs)) = None"
    by blast
  have a: "tedTalks w1 = stamped talk_record (clock env) (clock_reads w) rs"
    using fetchTEDTalks_succeeds [OF h, of w] assms(1) by auto
  have b: "tedTalks w2 = stamped talk_record (clock env) (clock_reads w1) rs"
    using fetchTEDTalks_succeeds [OF h, of w1] assms(2) by auto
  show ?thesis
    by (simp add: a b length_stamped stamped_without_createdAt)
qed

theorem forceRefresh_talks_idempotent_witness:
  "length (tedTalks after_second_refresh) = 2 \<and>
   length (tedTalks after_first_refresh) = 2 \<and>
   map without_createdAt (tedTalks after_second_refresh) =
     map without_createdAt (tedTalks after_first_refresh) \<and>
   map talk_createdAt (tedTalks after_first_refresh) = [1003, 1006] \<and>
   map talk_createdAt (tedTalks after_second_refresh) = [1009, 1012]"
proof -
  note s = fetchTEDTalks_succeeds [OF sample_ted_facts(1-3) sample_ted_facts(4)
        sample_ted_facts(4)]
  have e1: "fetchTEDTalks sample_env cached_world =
      (Inr (tedTalks after_first_refresh), after_first_refresh)"
    by (simp add: s after_first_refresh_def)
  have e2: "fetchTEDTalks sample_env after_first_refresh =
      (Inr (tedTalks after_second_refresh), after_second_refresh)"
    by (simp add: s after_second_refresh_def)
  have t1: "tedTalks after_first_refresh = stamped talk_record (clock sample_env) 1 sample_talk_items"
    and c1: "clock_reads after_first_refresh = 3"
    by (simp_all add: s after_first_refresh_def cached_world_def empty_world_def
        sample_ted_facts(5))
  have t2: "tedTalks after_second_refresh = stamped talk_record (clock sample_env) 3 sample_talk_items"
    by (simp add: s after_second_refresh_def c1)
  have "map talk_createdAt (tedTalks after_first_refresh) = [1003, 1006]"
    "map talk_createdAt (tedTalks after_second_refresh) = [1009, 1012]"
    by (simp_all add: t1 t2 sample_talk_items_def talk_record_def sample_env_def)
  moreover have "length (tedTalks after_first_refresh) = 2"
    by (simp add: t1 length_stamped sample_ted_facts(5))
  ultimately show ?thesis
    using forceRefresh_talks_idempotent [OF e1 e2] by simp
qed

section \<open>Reading the cache\<close>

lemma cursor_limit_Fin: "cursor_limit (Fin k) xs = Inr (if k = 0 then xs else take (nat \<bar>k\<bar>) xs)"
  by (simp add: cursor_limit_def)

lemma cursor_limit_subset: "cursor_limit lim xs = Inr r \<Longrightarrow> set r \<subseteq> set xs"
  by (cases lim) (auto simp: cursor_limit_def split: if_splits dest: in_set_takeD)

lemma cursor_limit_nonempty: "cursor_limit lim xs = Inr r \<Longrightarrow> xs \<noteq> [] \<Longrightarrow> r \<noteq> []"
  by (cases lim) (auto simp: cursor_limit_def split: if_splits)

lemma cursor_limit_empty: "cursor_limit lim [] = Inr r \<Longrightarrow> r = []"
  by (cases lim) (auto simp: cursor_limit_def)

lemma sort_desc_set: "set (sort_desc created xs) = set xs"
  by (simp add: sort_desc_def)

lemma sort_desc_Nil_iff: "sort_desc created xs = [] \<longleftrightarrow> xs = []"
  using sort_desc_set [of created xs] by (metis set_empty)

text \<open>A query only records its call; its result is drawn from the collection, and is empty
  exactly when no stored record satisfies the filter.\<close>

lemma run_find_world: "snd (run_find env ev matches created lim docs w) = record_call ev w"
  by (simp add: run_find_def storage_call_def split: option.splits sum.splits)

lemma run_find_result:
  assumes "storage_fault env ev = None"
  shows "fst (run_find env ev matches created (Fin k) docs w) =
     Inr (if k = 0 then sort_desc created (filter matches docs)
          else take (nat \<bar>k\<bar>) (sort_desc created (filter matches docs)))"
  by (simp add: run_find_def storage_call_def assms cursor_limit_Fin)

lemma run_find_subset:
  assumes "fst (run_find env ev matches created lim docs w) = Inr r"
  shows "set r \<subseteq> {d \<in> set docs. matches d}"
proof -
  have "cursor_limit lim (sort_desc created (filter matches docs)) = Inr r"
    using assms by (auto simp: run_find_def storage_call_def split: option.splits sum.splits)
  from cursor_limit_subset [OF this] show ?thesis by (simp add: sort_desc_set)
qed

lemma run_find_empty_iff:
  assumes "fst (run_find env ev matches created lim docs w) = Inr r"
  shows "r = [] \<longleftrightarrow> filter matches docs = []"
proof -
  have c: "cursor_limit lim (sort_desc created (filter matches docs)) = Inr r"
    using assms by (auto simp: run_find_def storage_call_def split: option.splits sum.splits)
  show ?thesis
  proof
    assume "r = []"
    then show "filter matches docs = []"
      using cursor_limit_nonempty [OF c] sort_desc_Nil_iff by blast
  next
    assume "filter matches docs = []"
    then show "r = []" using c by (simp add: sort_desc_def cursor_limit_empty)
  qed
qed

lemma find_tedTalks_world:
  "snd (find_tedTalks env q lim w) = record_call (Find ''tedTalks'' q lim) w"
  by (simp add: find_tedTalks_def run_find_world)

lemma find_ngos_world: "snd (find_ngos env q lim w) = record_call (Find ''ngos'' q lim) w"
  by (simp add: find_ngos_def run_find_world)



lemma record_call_frame:
  "tedTalks (record_call ev w) = tedTalks w" "ngos (record_call ev w) = ngos w"
  "mapData (record_call ev w) = mapData w" "messages (record_call ev w) = messages w"
  "clock_reads (record_call ev w) = clock_reads w" "trace (record_call ev w) = trace w @ [ev]"
  by (simp_all add: record_call_def)


section \<open>Serving content\<close>

subsection \<open>An empty cache\<close>





subsection \<open>A failing upstream\<close>

lemma get_content_fetch_fails:
  assumes "parseInt (content_limit req) = Inr lim"
    and "fst (find_tedTalks env (content_query req) lim w) = Inr []"
    and "ted_fetch_fails env"
  shows "\<exists>n. get_content env req w =
     (respond 500 (ErrorBody ''Failed to fetch content''),
      w\<lparr>clock_reads := n,
        trace := trace w @ [Find ''tedTalks'' (content_query req) lim,
                            AxiosGet TED_URL]\<rparr>)"
proof -
  let ?ev = "Find ''tedTalks'' (content_query req) lim"
  have f: "find_tedTalks env (content_query req) lim w =
      (Inr [], record_call ?ev w)"
    using assms(2) find_tedTalks_world [of env "content_query req" lim w]
    by (simp add: prod_eq_iff)
  from fetchTEDTalks_fails [OF assms(3), of "record_call ?ev w"]
  obtain e n where "fetchTEDTalks env (record_call ?ev w) =
      (Inl e, (record_call ?ev w)\<lparr>clock_reads := n,
         trace := trace (record_call ?ev w) @ [AxiosGet TED_URL]\<rparr>)"
    by blast
  then have "get_content env req w =
     (respond 500 (ErrorBody ''Failed to fetch content''),
      w\<lparr>clock_reads := n, trace := trace w @ [?ev, AxiosGet TED_URL]\<rparr>)"
    by (simp add: get_content_def Let_def assms(1) f record_call_def)
  then show ?thesis ..
qed

lemma get_action_hub_fetch_fails:
  assumes "parseInt (action_hub_limit req) = Inr lim'"
    and "fst (find_ngos env (action_hub_query req) lim' w) = Inr []"
    and "ngo_fetch_fails env"
  shows "\<exists>n. get_action_hub env req w =
     (respond 500 (ErrorBody ''Failed to fetch NGOs''),
      w\<lparr>clock_reads := n,
        trace := trace w @ [Find ''ngos'' (action_hub_query req) lim',
                            AxiosGet PROPUBLICA_URL]\<rparr>)"
proof -
  let ?ev = "Find ''ngos'' (action_hub_query req) lim'"
  have f: "find_ngos env (action_hub_query req) lim' w =
      (Inr [], record_call ?ev w)"
    using assms(2)
      find_ngos_world [of env "action_hub_query req" lim' w]
    by (simp add: prod_eq_iff)
  from refreshNGOData_fails [OF assms(3), of "record_call ?ev w"]
  obtain e n where "refreshNGOData env (record_call ?ev w) =
      (Inl e, (record_call ?ev w)\<lparr>clock_reads := n,
         trace := trace (record_call ?ev w) @ [AxiosGet PROPUBLICA_URL]\<rparr>)"
    by blast
  then have "get_action_hub env req w =
     (respond 500 (ErrorBody ''Failed to fetch NGOs''),
      w\<lparr>clock_reads := n, trace := trace w @ [?ev, AxiosGet PROPUBLICA_URL]\<rparr>)"
    by (simp add: get_action_hub_def Let_def assms(1) f record_call_def)
  then show ?thesis ..
qed

text \<open>
  C4. When a content read finds no record in its cache query and so triggers a refresh, and
  the upstream fetch fails (the request is rejected, or its payload cannot be normalised:
  the list of results is missing or not a list, an element is \<^verbatim>\<open>null\<close>, or the city or
  state of an organization does not convert to a string),
  the handler answers 500; the calls of the request are the cache query and exactly one
  upstream request, with no second attempt and no storage write; and all four collections,
  the cached one included, are exactly as before.
\<close>

theorem serve_refresh_failure_leaves_cache:
  "(parseInt (content_limit req) = Inr lim \<and>
    fst (find_tedTalks env (content_query req) lim w) = Inr [] \<and>
    ted_fetch_fails env \<longrightarrow>
      status (fst (get_content env req w)) = 500 \<and>
      tedTalks (snd (get_content env req w)) = tedTalks w \<and>
      ngos (snd (get_content env req w)) = ngos w \<and>
      mapData (snd (get_content env req w)) = mapData w \<and>
      messages (snd (get_content env req w)) = messages w \<and>
      trace (snd (get_content env req w)) =
        trace w @ [Find ''tedTalks'' (content_query req) lim,
                   AxiosGet TED_URL]) \<and>
   (parseInt (action_hub_limit req) = Inr lim' \<and>
    fst (find_ngos env (action_hub_query req) lim' w) = Inr [] \<and>
    ngo_fetch_fails env \<longrightarrow>
      status (fst (get_action_hub env req w)) = 500 \<and>
      tedTalks (snd (get_action_hub env req w)) = tedTalks w \<and>
      ngos (snd (get_action_hub env req w)) = ngos w \<and>
      mapData (snd (get_action_hub env req w)) = mapData w \<and>
      messages (snd (get_action_hub env req w)) = messages w \<and>
      trace (snd (get_action_hub env req w)) =
        trace w @ [Find ''ngos'' (action_hub_query req) lim',
                   AxiosGet PROPUBLICA_URL])"
proof (intro conjI impI)
  assume "parseInt (content_limit req) = Inr lim \<and>
    fst (find_tedTalks env (content_query req) lim w) = Inr [] \<and>
    ted_fetch_fails env"
  then obtain n where e: "get_content env req w =
     (respond 500 (ErrorBody ''Failed to fetch content''),
      w\<lparr>clock_reads := n,
        trace := trace w @ [Find ''tedTalks'' (content_query req) lim,
                            AxiosGet TED_URL]\<rparr>)"
    using get_content_fetch_fails [of req lim env w] by blast
  show "status (fst (get_content env req w)) = 500" by (simp add: e respond_def)
  show "tedTalks (snd (get_content env req w)) = tedTalks w" by (simp add: e)
  show "ngos (snd (get_content env req w)) = ngos w" by (simp add: e)
  show "mapData (snd (get_content env req w)) = mapData w" by (simp add: e)
  show "messages (snd (get_content env req w)) = messages w" by (simp add: e)
  show "trace (snd (get_content env req w)) =
        trace w @ [Find ''tedTalks'' (content_query req) lim,
                   AxiosGet TED_URL]"
    by (simp add: e)
next
  assume "parseInt (action_hub_limit req) = Inr lim' \<and>
    fst (find_ngos env (action_hub_query req) lim' w) = Inr [] \<and>
    ngo_fetch_fails env"
  then obtain n where e: "get_action_hub env req w =
     (respond 500 (ErrorBody ''Failed to fetch NGOs''),
      w\<lparr>clock_reads := n,
        trace := trace w @ [Find ''ngos'' (action_hub_query req) lim',
                            AxiosGet PROPUBLICA_URL]\<rparr>)"
    using get_action_hub_fetch_fails [of req lim' env w] by blast
  show "status (fst (get_action_hub env req w)) = 500" by (simp add: e respond_def)
  show "tedTalks (snd (get_action_hub env req w)) = tedTalks w" by (simp add: e)
  show "ngos (snd (get_action_hub env req w)) = ngos w" by (simp add: e)
  show "mapData (snd (get_action_hub env req w)) = mapData w" by (simp add: e)
  show "messages (snd (get_action_hub env req w)) = messages w" by (simp add: e)
  show "trace (snd (get_action_hub env req w)) =
        trace w @ [Find ''ngos'' (action_hub_query req) lim',
                   AxiosGet PROPUBLICA_URL]"
    by (simp add: e)
qed

theorem serve_refresh_failure_leaves_cache_witness:
  "ted_fetch_fails (sample_env\<lparr>ted_api := Inr (JObj [(''result'', JNull)])\<rparr>) \<and>
   status (fst (get_content (sample_env\<lparr>ted_api := Inr (JObj [(''result'', JNull)])\<rparr>)
     (request_with [(''search'', JStr ''zebra'')] []) cached_world)) = 500 \<and>
   tedTalks (snd (get_content (sample_env\<lparr>ted_api := Inr (JObj [(''result'', JNull)])\<rparr>)
     (request_with [(''search'', JStr ''zebra'')] []) cached_world)) = [cached_talk] \<and>
   ngo_fetch_fails (sample_env\<lparr>propublica_api := Inl AxiosError\<rparr>) \<and>
   status (fst (get_action_hub (sample_env\<lparr>propublica_api := Inl AxiosError\<rparr>)
     (request_with [] []) empty_world)) = 500 \<and>
   ngos (snd (get_action_hub (sample_env\<lparr>propublica_api := Inl AxiosError\<rparr>)
     (request_with [] []) empty_world)) = [] \<and>
   ngo_fetch_fails (sample_env\<lparr>propublica_api := Inr unprintable_city_payload\<rparr>) \<and>
   status (fst (get_action_hub (sample_env\<lparr>propublica_api := Inr unprintable_city_payload\<rparr>)
     (request_with [(''search'', JStr ''zebra'')] []) stocked_world)) = 500 \<and>
   ngos (snd (get_action_hub (sample_env\<lparr>propublica_api := Inr unprintable_city_payload\<rparr>)
     (request_with [(''search'', JStr ''zebra'')] []) stocked_world)) = [cached_ngo] \<and>
   trace (snd (get_action_hub (sample_env\<lparr>propublica_api := Inr unprintable_city_payload\<rparr>)
     (request_with [(''search'', JStr ''zebra'')] []) stocked_world)) =
     [Find ''ngos'' (action_hub_query (request_with [(''search'', JStr ''zebra'')] [])) (Fin 50),
      AxiosGet PROPUBLICA_URL]"
proof -
  let ?e1 = "sample_env\<lparr>ted_api := Inr (JObj [(''result'', JNull)])\<rparr>"
  let ?r1 = "request_with [(''search'', JStr ''zebra'')] []"
  let ?e2 = "sample_env\<lparr>propublica_api := Inl AxiosError\<rparr>"
  let ?r2 = "request_with [] []"
  let ?e3 = "sample_env\<lparr>propublica_api := Inr unprintable_city_payload\<rparr>"
  have p1: "parseInt (content_limit ?r1) = Inr (Fin 20)" by code_simp
  have f1: "fst (find_tedTalks ?e1 (content_query ?r1) (Fin 20) cached_world) = Inr []"
    by code_simp
  have b1: "ted_fetch_fails ?e1" by code_simp
  have p2: "parseInt (action_hub_limit ?r2) = Inr (Fin 50)" by code_simp
  have f2: "fst (find_ngos ?e2 (action_hub_query ?r2) (Fin 50) empty_world) = Inr []"
    by code_simp
  have b2: "ngo_fetch_fails ?e2" by code_simp
  have p3: "parseInt (action_hub_limit ?r1) = Inr (Fin 50)" by code_simp
  have f3: "fst (find_ngos ?e3 (action_hub_query ?r1) (Fin 50) stocked_world) = Inr []"
    by code_simp
  have b3: "ngo_fetch_fails ?e3" by code_simp
  have c: "tedTalks cached_world = [cached_talk]" "ngos empty_world = []"
    "ngos stocked_world = [cached_ngo]" "trace stocked_world = []"
    by (simp_all add: cached_world_def empty_world_def stocked_world_def)
  have h1: "parseInt (content_limit ?r1) = Inr (Fin 20) \<and>
      fst (find_tedTalks ?e1 (content_query ?r1) (Fin 20) cached_world) = Inr [] \<and>
      ted_fetch_fails ?e1"
    by (intro conjI, fact p1, fact f1, fact b1)
  have h2: "parseInt (action_hub_limit ?r2) = Inr (Fin 50) \<and>
      fst (find_ngos ?e2 (action_hub_query ?r2) (Fin 50) empty_world) = Inr [] \<and>
      ngo_fetch_fails ?e2"
    by (intro conjI, fact p2, fact f2, fact b2)
  have h3: "parseInt (action_hub_limit ?r1) = Inr (Fin 50) \<and>
      fst (find_ngos ?e3 (action_hub_query ?r1) (Fin 50) stocked_world) = Inr [] \<and>
      ngo_fetch_fails ?e3"
    by (intro conjI, fact p3, fact f3, fact b3)
  note t1 = serve_refresh_failure_leaves_cache [where env = ?e1 and req = ?r1
      and w = cached_world and lim = "Fin 20", THEN conjunct1, THEN mp, OF h1]
  note t2 = serve_refresh_failure_leaves_cache [where env = ?e2 and req = ?r2
      and w = empty_world and lim' = "Fin 50", THEN conjunct2, THEN mp, OF h2]
  note t3 = serve_refresh_failure_leaves_cache [where env = ?e3 and req = ?r1
      and w = stocked_world and lim' = "Fin 50", THEN conjunct2, THEN mp, OF h3]
  have a1: "status (fst (get_content ?e1 ?r1 cached_world)) = 500"
    by (rule t1 [THEN conjunct1])
  have a2: "tedTalks (snd (get_content ?e1 ?r1 cached_world)) = [cached_talk]"
    using t1 [THEN conjunct2, THEN conjunct1] by (simp only: c)
  have a3: "status (fst (get_action_hub ?e2 ?r2 empty_world)) = 500"
    by (rule t2 [THEN conjunct1])
  have a4: "ngos (snd (get_action_hub ?e2 ?r2 empty_world)) = []"
    using t2 [THEN conjunct2, THEN conjunct2, THEN conjunct1] by (simp only: c)
  have a5: "status (fst (get_action_hub ?e3 ?r1 stocked_world)) = 500"
    by (rule t3 [THEN conjunct1])
  have a6: "ngos (snd (get_action_hub ?e3 ?r1 stocked_world)) = [cached_ngo]"
    using t3 [THEN conjunct2, THEN conjunct2, THEN conjunct1] by (simp only: c)
  have a7: "trace (snd (get_action_hub ?e3 ?r1 stocked_world)) =
     [Find ''ngos'' (action_hub_query ?r1) (Fin 50), AxiosGet PROPUBLICA_URL]"
    using t3 [THEN conjunct2, THEN conjunct2, THEN conjunct2, THEN conjunct2, THEN conjunct2]
    by (simp only: c append_Nil)
  show ?thesis
    by (intro conjI, fact b1, fact a1, fact a2, fact b2, fact a3, fact a4, fact b3, fact a5,
        fact a6, fact a7)
qed

subsection \<open>A non-empty cache\<close>

lemma ted_fetches_record_call_Find:
  "ted_fetches (record_call (Find c q lim) w) = ted_fetches w"
  by (simp add: ted_fetches_def record_call_def)

text \<open>The handler asks the fetcher exactly when its cache query returns no record.\<close>

lemma get_content_hit:
  assumes "parseInt (content_limit req) = Inr lim"
    and "fst (find_tedTalks env (content_query req) lim w) = Inr r"
    and "r \<noteq> []"
  shows "get_content env req w =
     (respond 200 (Talks r),
      record_call (Find ''tedTalks'' (content_query req) lim) w)"
proof -
  have f: "find_tedTalks env (content_query req) lim w =
      (Inr r, record_call (Find ''tedTalks'' (content_query req) lim) w)"
    using assms(2) find_tedTalks_world [of env "content_query req" lim w]
    by (simp add: prod_eq_iff)
  show ?thesis
    using assms(3) by (simp add: get_content_def Let_def assms(1) f)
qed

lemma get_content_miss:
  assumes "parseInt (content_limit req) = Inr lim"
    and "fst (find_tedTalks env (content_query req) lim w) = Inr []"
  shows "snd (get_content env req w) =
     snd (fetchTEDTalks env
       (record_call (Find ''tedTalks'' (content_query req) lim) w))"
proof -
  have f: "find_tedTalks env (content_query req) lim w =
      (Inr [], record_call (Find ''tedTalks'' (content_query req) lim) w)"
    using assms(2) find_tedTalks_world [of env "content_query req" lim w]
    by (simp add: prod_eq_iff)
  show ?thesis
    by (simp add: get_content_def Let_def assms(1) f split: prod.splits sum.splits)
qed

text \<open>
  C1, as the code has it. Take a \<^verbatim>\<open>GET /api/content\<close> whose cache query the driver
  accepts (no fault, a finite limit). If at least one cached talk satisfies the filter
  built from \<^verbatim>\<open>search\<close> (with no \<^verbatim>\<open>search\<close> the filter is empty and every talk
  satisfies it), the handler makes no upstream request, leaves the collection as it is and
  answers 200 with a non-empty list of cached talks. If no cached talk satisfies the
  filter, the handler invokes the fetcher, which makes one upstream request, although the
  cache may be non-empty.
\<close>

theorem content_fetch_only_on_empty_result:
  assumes "storage_fault env (Find ''tedTalks'' (content_query req) (Fin k)) = None"
    and "parseInt (content_limit req) = Inr (Fin k)"
  shows "((\<exists>d \<in> set (tedTalks w).
             content_query req = [] \<or> talk_matches env (content_query req) d) \<longrightarrow>
            ted_fetches (snd (get_content env req w)) = ted_fetches w \<and>
            tedTalks (snd (get_content env req w)) = tedTalks w \<and>
            (\<exists>r. fst (get_content env req w) = respond 200 (Talks r) \<and> r \<noteq> [] \<and>
                 set r \<subseteq> set (tedTalks w))) \<and>
         ((\<forall>d \<in> set (tedTalks w).
             \<not> (content_query req = [] \<or> talk_matches env (content_query req) d)) \<longrightarrow>
            ted_fetches (snd (get_content env req w)) = Suc (ted_fetches w))"
proof -
  let ?q = "content_query req"
  let ?m = "\<lambda>d. ?q = [] \<or> talk_matches env ?q d"
  let ?ev = "Find ''tedTalks'' ?q (Fin k)"
  obtain r where r: "fst (find_tedTalks env ?q (Fin k) w) = Inr r"
    using run_find_result [of env "Find ''tedTalks'' ?q (Fin k)" ?m talk_createdAt k "tedTalks w" w]
      assms(1)
    by (simp add: find_tedTalks_def)
  then have sub: "set r \<subseteq> {d \<in> set (tedTalks w). ?m d}"
    and emp: "r = [] \<longleftrightarrow> filter ?m (tedTalks w) = []"
    using run_find_subset [of env ?ev ?m talk_createdAt "Fin k" "tedTalks w" w r]
      run_find_empty_iff [of env ?ev ?m talk_createdAt "Fin k" "tedTalks w" w r]
    by (simp_all add: find_tedTalks_def)
  show ?thesis
  proof (intro conjI impI)
    assume "\<exists>d \<in> set (tedTalks w). ?m d"
    then have "filter ?m (tedTalks w) \<noteq> []" by (simp add: filter_empty_conv)
    then have ne: "r \<noteq> []" using emp by simp
    note h = get_content_hit [OF assms(2) r ne]
    show "ted_fetches (snd (get_content env req w)) = ted_fetches w"
      by (simp add: h ted_fetches_record_call_Find)
    show "tedTalks (snd (get_content env req w)) = tedTalks w"
      by (simp add: h record_call_frame)
    have "fst (get_content env req w) = respond 200 (Talks r)" by (simp add: h)
    moreover have "set r \<subseteq> set (tedTalks w)" using sub by blast
    ultimately show "\<exists>r. fst (get_content env req w) = respond 200 (Talks r) \<and> r \<noteq> [] \<and>
                 set r \<subseteq> set (tedTalks w)"
      using ne by blast
  next
    assume "\<forall>d \<in> set (tedTalks w). \<not> ?m d"
    then have "filter ?m (tedTalks w) = []" by (simp add: filter_empty_conv)
    then have "r = []" using emp by simp
    then have "fst (find_tedTalks env ?q (Fin k) w) = Inr []"
      using r by simp
    from get_content_miss [OF assms(2) this]
    show "ted_fetches (snd (get_content env req w)) = Suc (ted_fetches w)"
      by (simp add: fetchTEDTalks_one_request ted_fetches_record_call_Find)
  qed
qed

theorem content_fetch_only_on_empty_result_witness:
  "tedTalks cached_world = [cached_talk] \<and>
   ted_fetches (snd (get_content sample_env (request_with [(''search'', JStr ''plastic'')] [])
     cached_world)) = ted_fetches cached_world \<and>
   tedTalks (snd (get_content sample_env (request_with [(''search'', JStr ''plastic'')] [])
     cached_world)) = [cached_talk] \<and>
   ted_fetches (snd (get_content sample_env (request_with [] []) cached_world)) =
     ted_fetches cached_world \<and>
   ted_fetches (snd (get_content sample_env (request_with [(''search'', JStr ''zebra'')] [])
     cached_world)) = Suc (ted_fetches cached_world)"
proof -
  let ?hit = "request_with [(''search'', JStr ''plastic'')] []"
  let ?all = "request_with [] []"
  let ?miss = "request_with [(''search'', JStr ''zebra'')] []"
  have p: "parseInt (content_limit ?hit) = Inr (Fin 20)"
    "parseInt (content_limit ?all) = Inr (Fin 20)"
    "parseInt (content_limit ?miss) = Inr (Fin 20)"
    by code_simp+
  have c: "tedTalks cached_world = [cached_talk]"
    by (simp add: cached_world_def empty_world_def)
  have m1: "\<exists>d \<in> set (tedTalks cached_world).
      content_query ?hit = [] \<or> talk_matches sample_env (content_query ?hit) d"
    by code_simp
  have m2: "\<exists>d \<in> set (tedTalks cached_world).
      content_query ?all = [] \<or> talk_matches sample_env (content_query ?all) d"
    by code_simp
  have m3: "\<forall>d \<in> set (tedTalks cached_world).
      \<not> (content_query ?miss = [] \<or> talk_matches sample_env (content_query ?miss) d)"
    by code_simp
  note t = content_fetch_only_on_empty_result [OF sample_ted_facts(4)]
  have a: "ted_fetches (snd (get_content sample_env ?hit cached_world)) = ted_fetches cached_world"
    "tedTalks (snd (get_content sample_env ?hit cached_world)) = tedTalks cached_world"
    using t [OF p(1), of cached_world, THEN conjunct1] m1 by simp_all
  have b: "ted_fetches (snd (get_content sample_env ?all cached_world)) = ted_fetches cached_world"
    using t [OF p(2), of cached_world, THEN conjunct1] m2 by simp
  have d: "ted_fetches (snd (get_content sample_env ?miss cached_world)) =
      Suc (ted_fetches cached_world)"
    using t [OF p(3), of cached_world, THEN conjunct2] m3 by simp
  show ?thesis using a b d c by simp
qed

text \<open>
  C1, as the claim states it, fails: with one talk cached and a \<^verbatim>\<open>search\<close> that matches no
  cached title, the handler invokes the fetcher and replaces the cache.
\<close>

theorem content_nonempty_cache_fetch_counterexample:
  "tedTalks cached_world \<noteq> [] \<and>
   ted_fetches cached_world = 0 \<and>
   ted_fetches (snd (get_content sample_env (request_with [(''search'', JStr ''zebra'')] [])
     cached_world)) = 1 \<and>
   cached_talk \<notin> set (tedTalks (snd (get_content sample_env
     (request_with [(''search'', JStr ''zebra'')] []) cached_world)))"
  by code_simp


end
